theory Spec2Isabelle
  imports Complex_Main "HOL-Library.AList"
begin

section \<open>The Open Receivables and Liabilities report (src/reports/orl/report.ts)\<close>

text \<open>
  A shallow embedding of \<^verbatim>\<open>generateORLReport\<close> and its helpers.

  \<^item> The amounts are JavaScript numbers, that is IEEE doubles. Their type is a type
    variable \<open>'n\<close> with an addition \<open>+\<close> and a zero \<open>0\<close> about which nothing is assumed
    (no associativity, no commutativity, no neutral element), and their truthiness is the
    parameter \<open>truthy\<close> (a number is falsy when it is 0, -0 or NaN). What is proved of
    the sums holds therefore of the sums of doubles the code computes, added in the order
    the code adds them. The examples instantiate \<open>'n\<close> with the rationals. A percentage
    is a rational.
  \<^item> A JavaScript object used as a dictionary is an association list in insertion order;
    \<^const>\<open>AList.update\<close> writes a property the way an assignment does (an existing key
    keeps its place, a new key goes to the end).
  \<^item> \<^verbatim>\<open>round\<close> is imported from the module \<^verbatim>\<open>shared\<close> and the conversion of a number to
    a string is the language's; the functions that use them take them as the parameters
    \<open>rnd\<close> and \<open>numStr\<close>.
  \<^item> The list returned by \<^verbatim>\<open>getGrossTransactions\<close> is the parameter \<open>data\<close>, and what
    the function writes to the sheet is returned as a value.
  \<^item> A thrown exception is a value \<open>Inl e\<close> of a sum type.
\<close>

subsection \<open>Data\<close>

text \<open>\<^verbatim>\<open>ReportsModels["TaxAmountModel"]\<close>: the fields \<^verbatim>\<open>type\<close> and \<^verbatim>\<open>percent\<close>.\<close>

record TaxAmountModel =
  tax_type :: string
  percent :: rat

text \<open>The reservation of a transaction: \<^verbatim>\<open>id\<close>, \<^verbatim>\<open>arrival\<close>, \<^verbatim>\<open>departure\<close>, \<^verbatim>\<open>status\<close>.\<close>

record ReservationModel =
  res_id :: string
  arrival :: string
  departure :: string
  status :: string

record AccountModel =
  account_type :: string

text \<open>
  \<^verbatim>\<open>ReportsModels["TransactionsGrossExportListItemModel"]\<close>. The reservation is optional
  (the source reads it with a non-null assertion, \<^verbatim>\<open>transaction.reservation!\<close>), and so
  is the list of taxes (\<^verbatim>\<open>t.taxes && t.taxes[0]\<close>). \<open>grossAmount\<close> is the value of
  \<^verbatim>\<open>Number(t.grossAmount)\<close>.
\<close>

record 'n TransactionModel =
  referenceType :: string
  reference :: string
  reservation :: "ReservationModel option"
  grossAmount :: 'n
  debitedAccount :: AccountModel
  creditedAccount :: AccountModel
  taxes :: "TaxAmountModel list option"

text \<open>
  \<^verbatim>\<open>LRReportRowItemModel\<close>: \<^verbatim>\<open>id\<close>, \<^verbatim>\<open>type\<close>, the optional \<^verbatim>\<open>arrival\<close>, \<^verbatim>\<open>departure\<close>
  and \<^verbatim>\<open>status\<close> (absent on an external record), the transactions, the receivables and
  the liabilities object (\<^verbatim>\<open>{ total: 0 }\<close> at first, then one property per VAT key).
\<close>

record 'n LRReportRowItemModel =
  row_id :: string
  row_type :: string
  row_arrival :: "string option"
  row_departure :: "string option"
  row_status :: "string option"
  transactions :: "'n TransactionModel list"
  receivables :: 'n
  liabilities :: "(string \<times> 'n) list"

text \<open>\<^verbatim>\<open>VatInfo\<close>: \<^verbatim>\<open>{ key, type, percent }\<close> for a tax entry, \<^verbatim>\<open>{ key }\<close> without one.\<close>

record VatInfo =
  vat_key :: string
  vat_type :: "string option"
  vat_percent :: "rat option"

record LiabilitiesColumn =
  displayName :: string
  col_key :: string

text \<open>The \<^verbatim>\<open>totals\<close> accumulator of the main loop.\<close>

record 'n Totals =
  total_receivables :: 'n
  total_liabilities :: "(string \<times> 'n) list"

text \<open>The value of a cell: a string, a number, or \<^verbatim>\<open>undefined\<close>.\<close>

datatype 'n cell = Str string | Num 'n | Undefined

datatype error = TypeError | UnsupportedReferenceType string

type_synonym 'n groups = "(string \<times> 'n LRReportRowItemModel) list"

subsection \<open>Reading properties\<close>

text \<open>\<^verbatim>\<open>x || 0\<close> on a number: the number when it is truthy, 0 otherwise.\<close>

definition orZero :: "('n \<Rightarrow> bool) \<Rightarrow> 'n \<Rightarrow> ('n::zero)" where
  "orZero truthy x = (if truthy x then x else 0)"

text \<open>
  \<^verbatim>\<open>obj[key] || 0\<close> on an object of numbers: 0 for a missing key and for a falsy
  number. The keys read this way are VAT keys and \<^verbatim>\<open>total\<close>, none of which names a
  member of \<^verbatim>\<open>Object.prototype\<close> (lemmas \<open>vat_key_plain\<close> and \<open>total_plain\<close> below).
\<close>

definition numberOr0 :: "('n \<Rightarrow> bool) \<Rightarrow> (string \<times> 'n) list \<Rightarrow> string \<Rightarrow> ('n::zero)" where
  "numberOr0 truthy obj k = (case map_of obj k of Some v \<Rightarrow> orZero truthy v | None \<Rightarrow> 0)"

text \<open>
  The plain read \<^verbatim>\<open>obj[key]\<close> of a number, for the reads of \<^verbatim>\<open>info.total\<close>,
  \<^verbatim>\<open>liabilities.total\<close>, \<^verbatim>\<open>liabilities[key]\<close> inside \<^verbatim>\<open>for (let key in liabilities)\<close>,
  \<^verbatim>\<open>r.liabilities.total\<close>, \<^verbatim>\<open>totals.liabilities.total\<close> and \<^verbatim>\<open>totals.liabilities[c.key]\<close>.
  In each of them the key is present (lemmas \<open>total_in_liabilityInfo\<close>,
  \<open>column_keys_used\<close> and \<open>report_record_keys\<close> below), so that the value given here
  for a missing key is never read.
\<close>

definition numberAt :: "(string \<times> 'n) list \<Rightarrow> string \<Rightarrow> ('n::zero)" where
  "numberAt obj k = (case map_of obj k of Some v \<Rightarrow> v | None \<Rightarrow> 0)"

text \<open>
  The names of the members of \<^verbatim>\<open>Object.prototype\<close>: reading one of them from an object
  made by the literal \<^verbatim>\<open>{}\<close>, which has no such property of its own, gives the inherited
  member, a truthy value that is not a record.
\<close>

definition objectPrototypeKeys :: "string list" where
  "objectPrototypeKeys =
     [''constructor'', ''__defineGetter__'', ''__defineSetter__'', ''hasOwnProperty'',
      ''__lookupGetter__'', ''__lookupSetter__'', ''isPrototypeOf'',
      ''propertyIsEnumerable'', ''toString'', ''valueOf'', ''__proto__'',
      ''toLocaleString'']"

text \<open>
  \<^verbatim>\<open>Object.values\<close> lists the properties whose names are array indices first, in
  ascending numeric order, and then the other properties in insertion order. An array
  index is the decimal form, without leading zeros, of an integer below \<open>2^32 - 1\<close>.
\<close>

definition isDigitChar :: "char \<Rightarrow> bool" where
  "isDigitChar c = (48 \<le> (of_char c :: nat) \<and> (of_char c :: nat) \<le> 57)"

definition digitsValue :: "string \<Rightarrow> nat" where
  "digitsValue s = foldl (\<lambda>n c. 10 * n + (of_char c - 48)) 0 s"

definition isArrayIndex :: "string \<Rightarrow> bool" where
  "isArrayIndex s =
     (s \<noteq> [] \<and> list_all isDigitChar s \<and> (length s = 1 \<or> hd s \<noteq> CHR ''0'')
      \<and> digitsValue s < 4294967295)"

definition objectValues :: "(string \<times> 'a) list \<Rightarrow> 'a list" where
  "objectValues obj =
     map snd (sort_key (\<lambda>p. digitsValue (fst p)) (filter (\<lambda>p. isArrayIndex (fst p)) obj)
              @ filter (\<lambda>p. \<not> isArrayIndex (fst p)) obj)"

text \<open>The decimal form of a natural number, as in \<^verbatim>\<open>`${rows.length}`\<close>.\<close>

fun natString :: "nat \<Rightarrow> string" where
  "natString n =
     (if n < 10 then [char_of (48 + n)]
      else natString (n div 10) @ [char_of (48 + n mod 10)])"

declare natString.simps [simp del]

subsection \<open>The helpers of the report\<close>

definition getVatTypeKey :: "(rat \<Rightarrow> string) \<Rightarrow> TaxAmountModel option \<Rightarrow> string" where
  "getVatTypeKey numStr vatOrTaxInfo =
     (case vatOrTaxInfo of
        Some tax \<Rightarrow>
          if tax_type tax \<noteq> ''Without''
          then tax_type tax @ ''-'' @ numStr (percent tax)
          else ''Without''
      | None \<Rightarrow> ''Without'')"

text \<open>
  \<^verbatim>\<open>transaction.reservation!.id\<close> throws a TypeError when the transaction has no
  reservation.
\<close>

definition getRecordId :: "'n TransactionModel \<Rightarrow> error + string" where
  "getRecordId transaction =
     (if referenceType transaction = ''Guest''
      then (case reservation transaction of
              None \<Rightarrow> Inl TypeError
            | Some r \<Rightarrow> Inr (res_id r))
      else Inr (reference transaction))"

definition createRecordForTransaction ::
  "('n::zero) TransactionModel \<Rightarrow> error + 'n LRReportRowItemModel" where
  "createRecordForTransaction transaction =
     (if referenceType transaction = ''Guest'' then
        (case reservation transaction of
           None \<Rightarrow> Inl TypeError
         | Some r \<Rightarrow>
             Inr \<lparr> row_id = res_id r, row_type = ''Guest'',
                   row_arrival = Some (take 10 (arrival r)),
                   row_departure = Some (take 10 (departure r)),
                   row_status = Some (status r),
                   transactions = [transaction], receivables = 0,
                   liabilities = [(''total'', 0)] \<rparr>)
      else if referenceType transaction = ''External'' then
        Inr \<lparr> row_id = reference transaction, row_type = ''External'',
              row_arrival = None, row_departure = None, row_status = None,
              transactions = [transaction], receivables = 0,
              liabilities = [(''total'', 0)] \<rparr>
      else Inl (UnsupportedReferenceType (referenceType transaction)))"

definition createHyperLinkForRecord :: "string \<Rightarrow> 'n LRReportRowItemModel \<Rightarrow> string" where
  "createHyperLinkForRecord propertyId r =
     (if row_type r = ''Guest'' then
        ''=HYPERLINK(\"https://app.apaleo.com/'' @ propertyId @ ''/reservations/'' @ row_id r
          @ ''/folio\"; \"'' @ row_id r @ ''\")''
      else if row_type r = ''External'' then
        ''=HYPERLINK(\"https://app.apaleo.com/'' @ propertyId @ ''/finance/folios/'' @ row_id r
          @ ''/general\"; \"'' @ row_id r @ ''\")''
      else row_id r)"

subsection \<open>Grouping the transactions\<close>

text \<open>
  One step of the \<^verbatim>\<open>reduce\<close> over the transactions. \<^verbatim>\<open>groups[groupId]\<close> is the record
  stored under the id; for an id that no record is stored under and that names a member
  of \<^verbatim>\<open>Object.prototype\<close> it is that member, which is truthy and has no
  \<^verbatim>\<open>transactions\<close>, so that \<^verbatim>\<open>group.transactions.push\<close> throws a TypeError.
\<close>

definition groupStep :: "('n::zero) groups \<Rightarrow> 'n TransactionModel \<Rightarrow> error + 'n groups" where
  "groupStep groups transaction =
     (case getRecordId transaction of
        Inl e \<Rightarrow> Inl e
      | Inr groupId \<Rightarrow>
          (case map_of groups groupId of
             Some grp \<Rightarrow>
               Inr (AList.update groupId
                      (grp\<lparr>transactions := transactions grp @ [transaction]\<rparr>) groups)
           | None \<Rightarrow>
               if groupId \<in> set objectPrototypeKeys then Inl TypeError
               else (case createRecordForTransaction transaction of
                       Inl e \<Rightarrow> Inl e
                     | Inr r \<Rightarrow> Inr (groups @ [(groupId, r)]))))"

fun groupTransactions :: "('n::zero) groups \<Rightarrow> 'n TransactionModel list \<Rightarrow> error + 'n groups" where
  "groupTransactions groups [] = Inr groups"
| "groupTransactions groups (transaction # rest) =
     (case groupStep groups transaction of
        Inl e \<Rightarrow> Inl e
      | Inr groups' \<Rightarrow> groupTransactions groups' rest)"

subsection \<open>Receivables and liabilities of one record\<close>

text \<open>The two filters over \<^verbatim>\<open>record.transactions\<close>.\<close>

definition receivableTransactions :: "'n LRReportRowItemModel \<Rightarrow> 'n TransactionModel list" where
  "receivableTransactions r =
     filter (\<lambda>t. account_type (debitedAccount t) = ''Receivables'') (transactions r)"

definition liabilityTransactions :: "'n LRReportRowItemModel \<Rightarrow> 'n TransactionModel list" where
  "liabilityTransactions r =
     filter (\<lambda>t. account_type (creditedAccount t) = ''Liabilities'') (transactions r)"

text \<open>
  \<^verbatim>\<open>round(... .reduce((sum, t) => sum + Number(t.grossAmount), 0))\<close>: the amounts are
  added from the left, starting from 0.
\<close>

definition recordReceivables ::
  "('n \<Rightarrow> 'n) \<Rightarrow> 'n LRReportRowItemModel \<Rightarrow> ('n::{plus,zero})" where
  "recordReceivables rnd r =
     rnd (foldl (\<lambda>sum t. sum + grossAmount t) 0 (receivableTransactions r))"

text \<open>\<^verbatim>\<open>t.taxes && t.taxes[0]\<close>: undefined without a list of taxes and for an empty one.\<close>

definition firstTax :: "'n TransactionModel \<Rightarrow> TaxAmountModel option" where
  "firstTax t = (case taxes t of None \<Rightarrow> None | Some [] \<Rightarrow> None | Some (x # _) \<Rightarrow> Some x)"

text \<open>\<^verbatim>\<open>tax ? { key, type: tax.type, percent: tax.percent } : { key }\<close>\<close>

definition vatInfoFor :: "string \<Rightarrow> TaxAmountModel option \<Rightarrow> VatInfo" where
  "vatInfoFor key tax =
     (case tax of
        Some x \<Rightarrow> \<lparr> vat_key = key, vat_type = Some (tax_type x), vat_percent = Some (percent x) \<rparr>
      | None \<Rightarrow> \<lparr> vat_key = key, vat_type = None, vat_percent = None \<rparr>)"

text \<open>
  The body of the \<^verbatim>\<open>reduce\<close> over the liability transactions of a record. Its state is
  the object \<^verbatim>\<open>info\<close> and the registry \<^verbatim>\<open>vatTypesInfo\<close>, which outlives the record.
\<close>

definition liabilityStep ::
  "('n \<Rightarrow> bool) \<Rightarrow> (rat \<Rightarrow> string)
     \<Rightarrow> (string \<times> 'n) list \<times> (string \<times> VatInfo) list \<Rightarrow> 'n TransactionModel
     \<Rightarrow> (string \<times> ('n::{plus,zero})) list \<times> (string \<times> VatInfo) list" where
  "liabilityStep truthy numStr acc t =
     (case acc of (info, vatTypesInfo) \<Rightarrow>
        let tax = firstTax t;
            key = getVatTypeKey numStr tax;
            amount = grossAmount t;
            info1 = AList.update key (numberOr0 truthy info key + amount) info;
            info2 = AList.update ''total'' (numberAt info1 ''total'' + amount) info1
        in (info2,
            (case map_of vatTypesInfo key of
               Some _ \<Rightarrow> vatTypesInfo
             | None \<Rightarrow> vatTypesInfo @ [(key, vatInfoFor key tax)])))"

definition recordLiabilities ::
  "('n \<Rightarrow> bool) \<Rightarrow> (rat \<Rightarrow> string) \<Rightarrow> (string \<times> VatInfo) list \<Rightarrow> 'n LRReportRowItemModel
     \<Rightarrow> (string \<times> ('n::{plus,zero})) list \<times> (string \<times> VatInfo) list" where
  "recordLiabilities truthy numStr vatTypesInfo r =
     foldl (liabilityStep truthy numStr) ([(''total'', 0)], vatTypesInfo) (liabilityTransactions r)"

subsection \<open>The main loop\<close>

record 'n LoopState =
  vatTypesInfo :: "(string \<times> VatInfo) list"
  guestRecords :: "'n LRReportRowItemModel list"
  externalRecords :: "'n LRReportRowItemModel list"
  totals :: "'n Totals"

text \<open>
  The body of \<^verbatim>\<open>for (let key in liabilities)\<close>: the rounded amount is stored on the
  record and added to the grand total of its key.
\<close>

definition storeLiability ::
  "('n \<Rightarrow> bool) \<Rightarrow> ('n \<Rightarrow> 'n) \<Rightarrow> (string \<times> 'n) list
     \<Rightarrow> 'n LRReportRowItemModel \<times> (string \<times> 'n) list
     \<Rightarrow> string \<Rightarrow> 'n LRReportRowItemModel \<times> (string \<times> ('n::{plus,zero})) list" where
  "storeLiability truthy rnd liabs acc key =
     (case acc of (r, totalLiabilities) \<Rightarrow>
        let amount = rnd (numberAt liabs key)
        in (r\<lparr>liabilities := AList.update key amount (liabilities r)\<rparr>,
            AList.update key (numberOr0 truthy totalLiabilities key + amount) totalLiabilities))"

text \<open>
  The body of the main loop. The test \<^verbatim>\<open>receivables || round(liabilities.total)\<close> is
  the truthiness of one of the two numbers; the grand total of the receivables is added
  to in the order of the loop.
\<close>

definition processRecord ::
  "('n \<Rightarrow> bool) \<Rightarrow> ('n \<Rightarrow> 'n) \<Rightarrow> (rat \<Rightarrow> string) \<Rightarrow> 'n LoopState \<Rightarrow> 'n LRReportRowItemModel
     \<Rightarrow> ('n::{plus,zero}) LoopState" where
  "processRecord truthy rnd numStr st r =
     (let recv = recordReceivables rnd r;
          (liabs, vatTypesInfo') = recordLiabilities truthy numStr (vatTypesInfo st) r;
          st1 = st\<lparr>vatTypesInfo := vatTypesInfo'\<rparr>
      in if truthy recv \<or> truthy (rnd (numberAt liabs ''total'')) then
           let r1 = r\<lparr>receivables := recv\<rparr>;
               (r2, totalLiabilities) =
                  foldl (storeLiability truthy rnd liabs)
                    (r1, total_liabilities (totals st)) (map fst liabs);
               totals' = \<lparr> total_receivables = total_receivables (totals st) + recv,
                           total_liabilities = totalLiabilities \<rparr>
           in if row_type r2 = ''Guest''
              then st1\<lparr>guestRecords := guestRecords st1 @ [r2], totals := totals'\<rparr>
              else st1\<lparr>externalRecords := externalRecords st1 @ [r2], totals := totals'\<rparr>
         else st1)"

definition initialState :: "('n::zero) LoopState" where
  "initialState =
     \<lparr> vatTypesInfo = [], guestRecords = [], externalRecords = [],
       totals = \<lparr> total_receivables = 0, total_liabilities = [(''total'', 0)] \<rparr> \<rparr>"

definition aggregate ::
  "('n \<Rightarrow> bool) \<Rightarrow> ('n \<Rightarrow> 'n) \<Rightarrow> (rat \<Rightarrow> string) \<Rightarrow> 'n LRReportRowItemModel list
     \<Rightarrow> ('n::{plus,zero}) LoopState" where
  "aggregate truthy rnd numStr groupedRecords =
     foldl (processRecord truthy rnd numStr) initialState groupedRecords"

subsection \<open>Columns, rows and the sheet\<close>

text \<open>\<^verbatim>\<open>vat.percent || 0\<close>, the number the columns are sorted by.\<close>

definition sortWeight :: "VatInfo \<Rightarrow> rat" where
  "sortWeight vat = (case vat_percent vat of Some p \<Rightarrow> p | None \<Rightarrow> 0)"

text \<open>
  \<^verbatim>\<open>Array.prototype.sort\<close> is stable, and the comparator is the difference of two
  numbers: the result is the stable sort by \<^const>\<open>sortWeight\<close>. A type that is the empty
  string is falsy, as a missing one is.
\<close>

definition columnFor :: "(rat \<Rightarrow> string) \<Rightarrow> VatInfo \<Rightarrow> LiabilitiesColumn" where
  "columnFor numStr vat =
     \<lparr> displayName =
         (case vat_type vat of
            Some ty \<Rightarrow>
              if ty \<noteq> [] then ''Liab. '' @ ty @ '' '' @ numStr (sortWeight vat) @ ''%''
              else ''Liab. '' @ vat_key vat
          | None \<Rightarrow> ''Liab. '' @ vat_key vat),
       col_key = vat_key vat \<rparr>"

definition usedVatTypes :: "'n LoopState \<Rightarrow> string list" where
  "usedVatTypes st = map fst (total_liabilities (totals st))"

definition liabilitiesColumns :: "(rat \<Rightarrow> string) \<Rightarrow> 'n LoopState \<Rightarrow> LiabilitiesColumn list" where
  "liabilitiesColumns numStr st =
     map (columnFor numStr)
       (sort_key sortWeight
          (filter (\<lambda>ty. vat_key ty \<in> set (usedVatTypes st)) (map snd (vatTypesInfo st))))"

definition optionalCell :: "string option \<Rightarrow> 'n cell" where
  "optionalCell v = (case v of Some s \<Rightarrow> Str s | None \<Rightarrow> Undefined)"

definition rowFor ::
  "('n \<Rightarrow> bool) \<Rightarrow> string \<Rightarrow> LiabilitiesColumn list \<Rightarrow> 'n LRReportRowItemModel
     \<Rightarrow> ('n::zero) cell list" where
  "rowFor truthy property columns r =
     [Str (createHyperLinkForRecord property r),
      optionalCell (row_arrival r),
      optionalCell (row_departure r),
      optionalCell (row_status r),
      Num (receivables r),
      Num (numberAt (liabilities r) ''total'')]
     @ map (\<lambda>c. Num (numberOr0 truthy (liabilities r) (col_key c))) columns"

definition totalRowFor ::
  "('n \<Rightarrow> 'n) \<Rightarrow> LiabilitiesColumn list \<Rightarrow> 'n Totals \<Rightarrow> ('n::zero) cell list" where
  "totalRowFor rnd columns tot =
     [Str '''', Str '''', Str '''', Str ''Total'',
      Num (rnd (total_receivables tot)),
      Num (rnd (numberAt (total_liabilities tot) ''total''))]
     @ map (\<lambda>c. Num (rnd (numberAt (total_liabilities tot) (col_key c)))) columns"

text \<open>
  What \<^verbatim>\<open>generateORLReport\<close> computes and writes: the lists it builds, and the contents
  of the sheet (the data rows and the totals row are written only when there are rows).
\<close>

record 'n Report =
  rep_transactions :: "'n TransactionModel list"
  rep_groupedRecords :: "'n LRReportRowItemModel list"
  rep_state :: "'n LoopState"
  rep_columns :: "LiabilitiesColumn list"
  rep_rows :: "'n cell list list"
  rep_totalRow :: "'n cell list"
  sheet_title :: string
  sheet_subtitle :: string
  sheet_header :: "string list"
  sheet_body :: "'n cell list list"
  sheet_totals :: "'n cell list option"
  sheet_summary :: string

definition generateORLReport ::
  "('n \<Rightarrow> bool) \<Rightarrow> ('n \<Rightarrow> 'n) \<Rightarrow> (rat \<Rightarrow> string) \<Rightarrow> 'n TransactionModel list
     \<Rightarrow> string \<Rightarrow> string \<Rightarrow> string \<Rightarrow> error + ('n::{plus,zero}) Report" where
  "generateORLReport truthy rnd numStr data property startDate endDate =
     (let txs = filter (\<lambda>transaction. referenceType transaction = ''Guest''
                                     \<or> referenceType transaction = ''External'') data
      in case groupTransactions [] txs of
           Inl e \<Rightarrow> Inl e
         | Inr groups \<Rightarrow>
             let groupedRecords = objectValues groups;
                 st = aggregate truthy rnd numStr groupedRecords;
                 columns = liabilitiesColumns numStr st;
                 records = guestRecords st @ externalRecords st;
                 rows = map (rowFor truthy property columns) records;
                 totalRow = totalRowFor rnd columns (totals st)
             in Inr \<lparr> rep_transactions = txs,
                      rep_groupedRecords = groupedRecords,
                      rep_state = st,
                      rep_columns = columns,
                      rep_rows = rows,
                      rep_totalRow = totalRow,
                      sheet_title = ''Open Receivables & Liabilities Report'',
                      sheet_subtitle =
                        ''for property '' @ property @ '' from '' @ startDate @ '' to '' @ endDate,
                      sheet_header =
                        [''Reservation ID'', ''Arrival'', ''Departure'', ''Status'',
                         ''Receivables'', ''Liabilities''] @ map displayName columns,
                      sheet_body = rows,
                      sheet_totals = (if rows \<noteq> [] then Some totalRow else None),
                      sheet_summary =
                        natString (length txs)
                        @ '' Transactions processed. Number of records with the open balance: ''
                        @ ''total - '' @ natString (length rows)
                        @ '', reservations - '' @ natString (length (guestRecords st))
                        @ '', external folios - '' @ natString (length (externalRecords st)) \<rparr>)"

subsection \<open>Notions used in the statements\<close>

text \<open>
  The VAT key of a transaction, the object \<^verbatim>\<open>liabilities\<close> of a record, the test of the
  main loop and the record as the loop stores it. Each is a part of the code above taken
  on its own: the registry and the grand totals do not influence it.
\<close>

definition vatKeyOf :: "(rat \<Rightarrow> string) \<Rightarrow> 'n TransactionModel \<Rightarrow> string" where
  "vatKeyOf numStr t = getVatTypeKey numStr (firstTax t)"

definition liabilityInfo ::
  "('n \<Rightarrow> bool) \<Rightarrow> (rat \<Rightarrow> string) \<Rightarrow> 'n LRReportRowItemModel
     \<Rightarrow> (string \<times> ('n::{plus,zero})) list" where
  "liabilityInfo truthy numStr r = fst (recordLiabilities truthy numStr [] r)"

definition hasOpenBalance ::
  "('n \<Rightarrow> bool) \<Rightarrow> ('n \<Rightarrow> 'n) \<Rightarrow> (rat \<Rightarrow> string) \<Rightarrow> ('n::{plus,zero}) LRReportRowItemModel
     \<Rightarrow> bool" where
  "hasOpenBalance truthy rnd numStr r =
     (truthy (recordReceivables rnd r)
      \<or> truthy (rnd (numberAt (liabilityInfo truthy numStr r) ''total'')))"

definition storedRecord ::
  "('n \<Rightarrow> bool) \<Rightarrow> ('n \<Rightarrow> 'n) \<Rightarrow> (rat \<Rightarrow> string) \<Rightarrow> 'n LRReportRowItemModel
     \<Rightarrow> ('n::{plus,zero}) LRReportRowItemModel" where
  "storedRecord truthy rnd numStr r =
     fst (foldl (storeLiability truthy rnd (liabilityInfo truthy numStr r))
            (r\<lparr>receivables := recordReceivables rnd r\<rparr>, [])
            (map fst (liabilityInfo truthy numStr r)))"

text \<open>
  The records of the rows, \<^verbatim>\<open>[...guestRecords, ...externalRecords]\<close>, and a record as
  \<^verbatim>\<open>createRecordForTransaction\<close> leaves its amounts.
\<close>

definition reportRecords :: "'n Report \<Rightarrow> 'n LRReportRowItemModel list" where
  "reportRecords rep = guestRecords (rep_state rep) @ externalRecords (rep_state rep)"

text \<open>
  The records that pass the test, as they are stored, in the order of the main loop; and
  the records of the rows of a report put back in the order of the loop, which is the
  order of the grouped records.
\<close>

definition keptRecords ::
  "('n \<Rightarrow> bool) \<Rightarrow> ('n \<Rightarrow> 'n) \<Rightarrow> (rat \<Rightarrow> string) \<Rightarrow> 'n LRReportRowItemModel list
     \<Rightarrow> ('n::{plus,zero}) LRReportRowItemModel list" where
  "keptRecords truthy rnd numStr groupedRecords =
     map (storedRecord truthy rnd numStr) (filter (hasOpenBalance truthy rnd numStr) groupedRecords)"

definition recordsInLoopOrder :: "'n Report \<Rightarrow> 'n LRReportRowItemModel list" where
  "recordsInLoopOrder rep =
     concat (map (\<lambda>g. filter (\<lambda>r. row_id r = row_id g) (reportRecords rep))
               (rep_groupedRecords rep))"

definition freshRecord :: "('n::zero) LRReportRowItemModel \<Rightarrow> bool" where
  "freshRecord r = (liabilities r = [(''total'', 0)] \<and> receivables r = 0)"

text \<open>
  Modelled from the spec: \<^verbatim>\<open>round\<close> of the module \<^verbatim>\<open>shared\<close>, which is not among the
  sources: rounding to 2 decimal places, a half rounded up. It is used in the examples,
  on rationals, together with the truthiness of a rational.
\<close>

definition round2 :: "rat \<Rightarrow> rat" where
  "round2 x = of_int \<lfloor>x * 100 + 1 / 2\<rfloor> / 100"

definition nonZero :: "rat \<Rightarrow> bool" where
  "nonZero x = (x \<noteq> 0)"

text \<open>
  The elements of a list that are the first with their key, in the order of the list:
  the order in which the keys are discovered on a pass over the list.
\<close>

fun firstOfKey :: "('a \<Rightarrow> 'k) \<Rightarrow> 'a list \<Rightarrow> 'a list" where
  "firstOfKey f [] = []"
| "firstOfKey f (x # xs) = x # firstOfKey f (filter (\<lambda>y. f y \<noteq> f x) xs)"

text \<open>
  The liability transactions in the order the main loop meets them, and the entry of the
  registry a transaction makes when its key is new.
\<close>

definition loopLiabilities :: "'n LRReportRowItemModel list \<Rightarrow> 'n TransactionModel list" where
  "loopLiabilities groupedRecords = concat (map liabilityTransactions groupedRecords)"

definition registryEntry :: "(rat \<Rightarrow> string) \<Rightarrow> 'n TransactionModel \<Rightarrow> string \<times> VatInfo" where
  "registryEntry numStr t = (vatKeyOf numStr t, vatInfoFor (vatKeyOf numStr t) (firstTax t))"

text \<open>
  The transactions the grouping accepts: a guest transaction with a reservation, and a
  grouping key that is not the name of a member of \<^verbatim>\<open>Object.prototype\<close>.
\<close>

definition groupable :: "'n TransactionModel \<Rightarrow> bool" where
  "groupable t =
     (if referenceType t = ''Guest''
      then (case reservation t of None \<Rightarrow> False | Some res \<Rightarrow> res_id res \<notin> set objectPrototypeKeys)
      else reference t \<notin> set objectPrototypeKeys)"

definition groupableInput :: "'n TransactionModel list \<Rightarrow> bool" where
  "groupableInput data =
     (\<forall>t \<in> set data. referenceType t = ''Guest'' \<or> referenceType t = ''External'' \<longrightarrow> groupable t)"

text \<open>
  The registry \<^verbatim>\<open>vatTypesInfo\<close> is well formed over a set of transactions: its keys are
  distinct, and each entry was made for its key from the first tax of one of them.
\<close>

definition registryOk ::
  "(rat \<Rightarrow> string) \<Rightarrow> 'n TransactionModel set \<Rightarrow> (string \<times> VatInfo) list \<Rightarrow> bool" where
  "registryOk numStr T vti =
     (distinct (map fst vti) \<and>
      (\<forall>p \<in> set vti. \<exists>t \<in> T. vatKeyOf numStr t = fst p \<and> snd p = vatInfoFor (fst p) (firstTax t)))"

subsection \<open>Example input\<close>

text \<open>
  The decimal form of a percentage that is a natural number stands for the conversion of
  a number to a string in the examples.
\<close>

definition percentString :: "rat \<Rightarrow> string" where
  "percentString p = natString (nat \<lfloor>p\<rfloor>)"

definition guestTransaction ::
  "ReservationModel \<Rightarrow> 'n \<Rightarrow> string \<Rightarrow> string \<Rightarrow> TaxAmountModel list option
     \<Rightarrow> 'n TransactionModel" where
  "guestTransaction res amount debited credited txs =
     \<lparr> referenceType = ''Guest'', reference = res_id res, reservation = Some res,
       grossAmount = amount, debitedAccount = \<lparr> account_type = debited \<rparr>,
       creditedAccount = \<lparr> account_type = credited \<rparr>, taxes = txs \<rparr>"

definition externalTransaction ::
  "string \<Rightarrow> 'n \<Rightarrow> string \<Rightarrow> string \<Rightarrow> TaxAmountModel list option \<Rightarrow> 'n TransactionModel" where
  "externalTransaction ref amount debited credited txs =
     \<lparr> referenceType = ''External'', reference = ref, reservation = None,
       grossAmount = amount, debitedAccount = \<lparr> account_type = debited \<rparr>,
       creditedAccount = \<lparr> account_type = credited \<rparr>, taxes = txs \<rparr>"

definition reservationR1 :: ReservationModel where
  "reservationR1 =
     \<lparr> res_id = ''R1'', arrival = ''2020-01-01T14:00:00+01:00'',
       departure = ''2020-01-03T11:00:00+01:00'', status = ''InHouse'' \<rparr>"

definition exampleData :: "rat TransactionModel list" where
  "exampleData =
     [guestTransaction reservationR1 100 ''Receivables'' ''Revenues'' None,
      guestTransaction reservationR1 50 ''Payments'' ''Liabilities''
        (Some [\<lparr> tax_type = ''A'', percent = 10 \<rparr>]),
      externalTransaction ''EXT1'' 20 ''Payments'' ''Liabilities'' None]"

text \<open>A payment and its refund under one VAT key, on a reservation with an open receivable.\<close>

definition refundData :: "rat TransactionModel list" where
  "refundData =
     [guestTransaction reservationR1 100 ''Receivables'' ''Revenues'' None,
      guestTransaction reservationR1 50 ''Payments'' ''Liabilities''
        (Some [\<lparr> tax_type = ''A'', percent = 10 \<rparr>]),
      guestTransaction reservationR1 (-50) ''Payments'' ''Liabilities''
        (Some [\<lparr> tax_type = ''A'', percent = 10 \<rparr>])]"

text \<open>The example input and an external folio whose payment was refunded.\<close>

definition closedData :: "rat TransactionModel list" where
  "closedData =
     exampleData @
     [externalTransaction ''EXT2'' 50 ''Payments'' ''Liabilities''
        (Some [\<lparr> tax_type = ''B'', percent = 7 \<rparr>]),
      externalTransaction ''EXT2'' (-50) ''Payments'' ''Liabilities''
        (Some [\<lparr> tax_type = ''B'', percent = 7 \<rparr>])]"

text \<open>Three liabilities of 0.333, 0.334 and 0.333 under one VAT key.\<close>

definition thirdsData :: "rat TransactionModel list" where
  "thirdsData =
     [guestTransaction reservationR1 (333 / 1000) ''Payments'' ''Liabilities''
        (Some [\<lparr> tax_type = ''A'', percent = 10 \<rparr>]),
      guestTransaction reservationR1 (334 / 1000) ''Payments'' ''Liabilities''
        (Some [\<lparr> tax_type = ''A'', percent = 10 \<rparr>]),
      guestTransaction reservationR1 (333 / 1000) ''Payments'' ''Liabilities''
        (Some [\<lparr> tax_type = ''A'', percent = 10 \<rparr>])]"

text \<open>Liabilities under four VAT keys, two of them with the same percentage.\<close>

definition mixedTaxData :: "rat TransactionModel list" where
  "mixedTaxData =
     [guestTransaction reservationR1 30 ''Payments'' ''Liabilities''
        (Some [\<lparr> tax_type = ''C'', percent = 19 \<rparr>]),
      guestTransaction reservationR1 20 ''Payments'' ''Liabilities''
        (Some [\<lparr> tax_type = ''B'', percent = 7 \<rparr>]),
      externalTransaction ''EXT1'' 10 ''Payments'' ''Liabilities''
        (Some [\<lparr> tax_type = ''A'', percent = 7 \<rparr>]),
      externalTransaction ''EXT1'' 5 ''Payments'' ''Liabilities'' None]"

text \<open>A tax entry of type \<^verbatim>\<open>Without\<close> that carries a percentage.\<close>

definition untaxedPercentData :: "rat TransactionModel list" where
  "untaxedPercentData =
     [guestTransaction reservationR1 10 ''Payments'' ''Liabilities''
        (Some [\<lparr> tax_type = ''Without'', percent = 5 \<rparr>]),
      guestTransaction reservationR1 20 ''Payments'' ''Liabilities''
        (Some [\<lparr> tax_type = ''A'', percent = 3 \<rparr>])]"

section \<open>Properties\<close>

subsection \<open>Association lists and VAT keys\<close>

lemma orZero_zero: "orZero truthy 0 = 0"
  by (simp add: orZero_def)

lemma numberOr0_numberAt: "numberOr0 truthy al k = orZero truthy (numberAt al k)"
  by (cases "map_of al k") (simp_all add: numberOr0_def numberAt_def orZero_zero)

lemma numberAt_update:
  "numberAt (AList.update k v al) k' = (if k' = k then v else numberAt al k')"
  by (simp add: numberAt_def update_conv')

lemma keys_update: "fst ` set (AList.update k v al) = insert k (fst ` set al)"
  by (simp add: dom_update)

lemma update_set_subset: "set (AList.update k v al) \<subseteq> insert (k, v) (set al)"
  by (induct al) auto

lemma numberAt_absent: "k \<notin> fst ` set al \<Longrightarrow> numberAt al k = 0"
  by (auto simp: numberAt_def map_of_eq_None_iff[symmetric])

lemma numberOr0_absent: "k \<notin> fst ` set al \<Longrightarrow> numberOr0 truthy al k = 0"
  by (simp add: numberOr0_numberAt numberAt_absent orZero_zero)

lemma vat_key_not_total: "getVatTypeKey numStr tx \<noteq> ''total''"
proof
  assume eq: "getVatTypeKey numStr tx = ''total''"
  show False
  proof (cases tx)
    case None
    with eq show False by (simp add: getVatTypeKey_def)
  next
    case (Some x)
    show False
    proof (cases "tax_type x = ''Without''")
      case True
      with eq Some show False by (simp add: getVatTypeKey_def)
    next
      case False
      with eq Some have e: "tax_type x @ ''-'' @ numStr (percent x) = ''total''"
        by (simp add: getVatTypeKey_def)
      have "CHR ''-'' \<in> set (tax_type x @ ''-'' @ numStr (percent x))" by simp
      then have "CHR ''-'' \<in> set ''total''" by (simp only: e)
      then show False by simp
    qed
  qed
qed

text \<open>
  A VAT key and \<^verbatim>\<open>total\<close> are plain property names: neither the name of a member of
  \<^verbatim>\<open>Object.prototype\<close> nor an array index. So the objects keyed by them
  (\<^verbatim>\<open>info\<close>, \<^verbatim>\<open>record.liabilities\<close>, \<^verbatim>\<open>totals.liabilities\<close>, \<^verbatim>\<open>vatTypesInfo\<close>) list
  their properties in insertion order and read no inherited member.
\<close>

lemma dash_not_plain:
  assumes "CHR ''-'' \<in> set k"
  shows "k \<notin> set objectPrototypeKeys \<and> \<not> isArrayIndex k"
proof
  have "\<forall>p \<in> set objectPrototypeKeys. CHR ''-'' \<notin> set p"
    by (simp add: objectPrototypeKeys_def)
  with assms show "k \<notin> set objectPrototypeKeys" by blast
  have "\<not> isDigitChar CHR ''-''" by (simp add: isDigitChar_def)
  with assms have "\<not> list_all isDigitChar k" unfolding list_all_iff by blast
  then show "\<not> isArrayIndex k" by (simp add: isArrayIndex_def)
qed

lemma vat_key_plain:
  "getVatTypeKey numStr tx \<notin> set objectPrototypeKeys \<and> \<not> isArrayIndex (getVatTypeKey numStr tx)"
proof (cases "getVatTypeKey numStr tx = ''Without''")
  case True
  show ?thesis unfolding True
    by (simp add: objectPrototypeKeys_def isArrayIndex_def isDigitChar_def)
next
  case False
  then have "CHR ''-'' \<in> set (getVatTypeKey numStr tx)"
    by (auto simp: getVatTypeKey_def split: option.splits if_splits)
  then show ?thesis by (rule dash_not_plain)
qed

lemma total_plain: "''total'' \<notin> set objectPrototypeKeys \<and> \<not> isArrayIndex ''total''"
  by (simp add: objectPrototypeKeys_def isArrayIndex_def isDigitChar_def)

subsection \<open>The liabilities of one record\<close>

lemma liabilityStep_fst:
  "fst (liabilityStep truthy numStr (info, vti) t) =
     AList.update ''total''
       (numberAt (AList.update (vatKeyOf numStr t)
                    (numberOr0 truthy info (vatKeyOf numStr t) + grossAmount t) info)
          ''total'' + grossAmount t)
       (AList.update (vatKeyOf numStr t)
          (numberOr0 truthy info (vatKeyOf numStr t) + grossAmount t) info)"
  by (simp add: liabilityStep_def Let_def vatKeyOf_def)

lemma liabilityStep_fst_indep:
  "fst (liabilityStep truthy numStr (info, vti) t) = fst (liabilityStep truthy numStr (info, vti') t)"
  by (simp add: liabilityStep_fst)

lemma liabilityFold_fst_indep:
  "fst (foldl (liabilityStep truthy numStr) (info, vti) ts) =
     fst (foldl (liabilityStep truthy numStr) (info, vti') ts)"
proof (induction ts arbitrary: info vti vti')
  case Nil
  show ?case by simp
next
  case (Cons t ts)
  obtain i1 v1 where s1: "liabilityStep truthy numStr (info, vti) t = (i1, v1)"
    by (cases "liabilityStep truthy numStr (info, vti) t")
  obtain i2 v2 where s2: "liabilityStep truthy numStr (info, vti') t = (i2, v2)"
    by (cases "liabilityStep truthy numStr (info, vti') t")
  have "i1 = i2" using liabilityStep_fst_indep[of truthy numStr info vti t vti'] s1 s2 by simp
  then show ?case using Cons.IH[of i1 v1 v2] s1 s2 by simp
qed

text \<open>
  One step adds the amount to \<^verbatim>\<open>info.total\<close>, and to \<^verbatim>\<open>info[key] || 0\<close>; the other
  properties are left as they are.
\<close>

lemma liabilityStep_total:
  "numberAt (fst (liabilityStep truthy numStr (info, vti) t)) ''total'' =
     numberAt info ''total'' + grossAmount t"
  using vat_key_not_total[of numStr "firstTax t"]
  by (simp add: liabilityStep_fst numberAt_update vatKeyOf_def)

lemma liabilityStep_number:
  "k \<noteq> ''total'' \<Longrightarrow>
   numberAt (fst (liabilityStep truthy numStr (info, vti) t)) k =
     (if vatKeyOf numStr t = k then orZero truthy (numberAt info k) + grossAmount t
      else numberAt info k)"
  by (auto simp: liabilityStep_fst numberAt_update numberOr0_numberAt)

lemma liabilityFold_total:
  "numberAt (fst (foldl (liabilityStep truthy numStr) (info, vti) ts)) ''total'' =
     foldl (\<lambda>sum t. sum + grossAmount t) (numberAt info ''total'') ts"
proof (induction ts arbitrary: info vti)
  case Nil
  show ?case by simp
next
  case (Cons t ts)
  obtain i1 v1 where s1: "liabilityStep truthy numStr (info, vti) t = (i1, v1)"
    by (cases "liabilityStep truthy numStr (info, vti) t")
  have i1: "numberAt i1 ''total'' = numberAt info ''total'' + grossAmount t"
    using liabilityStep_total[of truthy numStr info vti t] s1 by simp
  show ?case using Cons.IH[of i1 v1] s1 i1 by simp
qed

lemma liabilityFold_number:
  "k \<noteq> ''total'' \<Longrightarrow>
   numberAt (fst (foldl (liabilityStep truthy numStr) (info, vti) ts)) k =
     foldl (\<lambda>sum t. orZero truthy sum + grossAmount t) (numberAt info k)
       (filter (\<lambda>t. vatKeyOf numStr t = k) ts)"
proof (induction ts arbitrary: info vti)
  case Nil
  show ?case by simp
next
  case (Cons t ts)
  obtain i1 v1 where s1: "liabilityStep truthy numStr (info, vti) t = (i1, v1)"
    by (cases "liabilityStep truthy numStr (info, vti) t")
  have i1: "numberAt i1 k =
      (if vatKeyOf numStr t = k then orZero truthy (numberAt info k) + grossAmount t
       else numberAt info k)"
    using liabilityStep_number[OF Cons.prems, of truthy numStr info vti t] s1 by simp
  show ?case using Cons.IH[OF Cons.prems, of i1 v1] s1 i1 by simp
qed

lemma liabilityStep_keys:
  "fst ` set (fst (liabilityStep truthy numStr (info, vti) t)) =
     insert ''total'' (insert (vatKeyOf numStr t) (fst ` set info))"
  by (simp add: liabilityStep_fst keys_update)

lemma liabilityFold_keys:
  "''total'' \<in> fst ` set info \<Longrightarrow>
   fst ` set (fst (foldl (liabilityStep truthy numStr) (info, vti) ts)) =
     fst ` set info \<union> vatKeyOf numStr ` set ts"
proof (induction ts arbitrary: info vti)
  case Nil
  show ?case by simp
next
  case (Cons t ts)
  obtain i1 v1 where s1: "liabilityStep truthy numStr (info, vti) t = (i1, v1)"
    by (cases "liabilityStep truthy numStr (info, vti) t")
  have k1: "fst ` set i1 = insert ''total'' (insert (vatKeyOf numStr t) (fst ` set info))"
    using liabilityStep_keys[of truthy numStr info vti t] s1 by simp
  then have "''total'' \<in> fst ` set i1" by simp
  from Cons.IH[OF this, of v1] s1 k1 Cons.prems show ?case by auto
qed

lemma liabilityStep_distinct:
  "distinct (map fst info) \<Longrightarrow> distinct (map fst (fst (liabilityStep truthy numStr (info, vti) t)))"
  by (simp add: liabilityStep_fst distinct_update)

lemma liabilityFold_distinct:
  "distinct (map fst info) \<Longrightarrow>
   distinct (map fst (fst (foldl (liabilityStep truthy numStr) (info, vti) ts)))"
proof (induction ts arbitrary: info vti)
  case Nil
  then show ?case by simp
next
  case (Cons t ts)
  obtain i1 v1 where s1: "liabilityStep truthy numStr (info, vti) t = (i1, v1)"
    by (cases "liabilityStep truthy numStr (info, vti) t")
  have "distinct (map fst i1)"
    using liabilityStep_distinct[OF Cons.prems, of truthy numStr vti t] s1 by simp
  from Cons.IH[OF this, of v1] s1 show ?case by simp
qed

text \<open>
  The object \<^verbatim>\<open>liabilities\<close> of a record in closed form: the sums are those of the
  reduce, in the order of the transactions of the record.
\<close>

lemma numberAt_initial: "numberAt [(''total'', 0)] k = 0"
  by (simp add: numberAt_def)

lemma recordLiabilities_fst:
  "fst (recordLiabilities truthy numStr vti r) = liabilityInfo truthy numStr r"
  unfolding liabilityInfo_def recordLiabilities_def by (rule liabilityFold_fst_indep)

lemma liabilityInfo_total:
  "numberAt (liabilityInfo truthy numStr r) ''total'' =
     foldl (\<lambda>sum t. sum + grossAmount t) 0 (liabilityTransactions r)"
  unfolding liabilityInfo_def recordLiabilities_def
  by (simp add: liabilityFold_total numberAt_initial)

lemma liabilityInfo_key:
  "k \<noteq> ''total'' \<Longrightarrow> numberAt (liabilityInfo truthy numStr r) k =
     foldl (\<lambda>sum t. orZero truthy sum + grossAmount t) 0
       (filter (\<lambda>t. vatKeyOf numStr t = k) (liabilityTransactions r))"
  unfolding liabilityInfo_def recordLiabilities_def
  by (simp add: liabilityFold_number numberAt_initial)

lemma liabilityInfo_keys:
  "fst ` set (liabilityInfo truthy numStr r) =
     insert ''total'' (vatKeyOf numStr ` set (liabilityTransactions r))"
  unfolding liabilityInfo_def recordLiabilities_def
  by (simp add: liabilityFold_keys)

lemma liabilityInfo_distinct: "distinct (map fst (liabilityInfo truthy numStr r))"
  unfolding liabilityInfo_def recordLiabilities_def
  by (simp add: liabilityFold_distinct)

lemma total_in_liabilityInfo: "''total'' \<in> fst ` set (liabilityInfo truthy numStr r)"
  by (simp add: liabilityInfo_keys)

subsection \<open>Storing the amounts\<close>

lemma storeLiability_pair:
  "storeLiability truthy rnd liabs (r, tot) k =
     (r\<lparr>liabilities := AList.update k (rnd (numberAt liabs k)) (liabilities r)\<rparr>,
      AList.update k (numberOr0 truthy tot k + rnd (numberAt liabs k)) tot)"
  by (simp add: storeLiability_def Let_def)

lemma storeFold_fst:
  "fst (foldl (storeLiability truthy rnd liabs) (r, tot) ks) =
     r\<lparr>liabilities := foldl (\<lambda>l k. AList.update k (rnd (numberAt liabs k)) l) (liabilities r) ks\<rparr>"
proof (induction ks arbitrary: r tot)
  case Nil
  show ?case by simp
next
  case (Cons k ks)
  show ?case by (simp add: storeLiability_pair Cons.IH)
qed

lemma storeFold_snd:
  "snd (foldl (storeLiability truthy rnd liabs) (r, tot) ks) =
     foldl (\<lambda>l k. AList.update k (numberOr0 truthy l k + rnd (numberAt liabs k)) l) tot ks"
proof (induction ks arbitrary: r tot)
  case Nil
  show ?case by simp
next
  case (Cons k ks)
  show ?case by (simp add: storeLiability_pair Cons.IH)
qed

lemma storeFold_pair:
  "foldl (storeLiability truthy rnd liabs) (r, tot) ks =
     (r\<lparr>liabilities := foldl (\<lambda>l k. AList.update k (rnd (numberAt liabs k)) l) (liabilities r) ks\<rparr>,
      foldl (\<lambda>l k. AList.update k (numberOr0 truthy l k + rnd (numberAt liabs k)) l) tot ks)"
  using storeFold_fst[of truthy rnd liabs r tot ks] storeFold_snd[of truthy rnd liabs r tot ks]
  by (metis prod.collapse)

lemma setFold_map_of:
  "map_of (foldl (\<lambda>l k. AList.update k (f k) l) l0 ks) k =
     (if k \<in> set ks then Some (f k) else map_of l0 k)"
  by (induction ks arbitrary: l0) (auto simp: update_conv')

lemma setFold_keys:
  "fst ` set (foldl (\<lambda>l k. AList.update k (f k) l) l0 ks) = fst ` set l0 \<union> set ks"
  by (induction ks arbitrary: l0) (auto simp: keys_update)

lemma addFold_keys:
  "fst ` set (foldl (\<lambda>l k. AList.update k (numberOr0 truthy l k + f k) l) l0 ks) =
     fst ` set l0 \<union> set ks"
  by (induction ks arbitrary: l0) (auto simp: keys_update)

lemma addFold_number:
  "distinct ks \<Longrightarrow>
   numberAt (foldl (\<lambda>l k. AList.update k (numberOr0 truthy l k + f k) l) l0 ks) k =
     (if k \<in> set ks then orZero truthy (numberAt l0 k) + f k else numberAt l0 k)"
  by (induction ks arbitrary: l0) (auto simp: numberAt_update numberOr0_numberAt)

lemma storedRecord_eq:
  "storedRecord truthy rnd numStr r =
     r\<lparr>receivables := recordReceivables rnd r,
       liabilities :=
         foldl (\<lambda>l k. AList.update k (rnd (numberAt (liabilityInfo truthy numStr r) k)) l)
           (liabilities r) (map fst (liabilityInfo truthy numStr r))\<rparr>"
  by (simp add: storedRecord_def storeFold_fst)

lemma storedRecord_fields:
  "row_id (storedRecord truthy rnd numStr r) = row_id r"
  "row_type (storedRecord truthy rnd numStr r) = row_type r"
  "row_arrival (storedRecord truthy rnd numStr r) = row_arrival r"
  "row_departure (storedRecord truthy rnd numStr r) = row_departure r"
  "row_status (storedRecord truthy rnd numStr r) = row_status r"
  "transactions (storedRecord truthy rnd numStr r) = transactions r"
  "receivables (storedRecord truthy rnd numStr r) = recordReceivables rnd r"
  by (simp_all add: storedRecord_eq)

lemma storedRecord_liabilities:
  "map_of (liabilities (storedRecord truthy rnd numStr r)) k =
     (if k \<in> fst ` set (liabilityInfo truthy numStr r)
      then Some (rnd (numberAt (liabilityInfo truthy numStr r) k))
      else map_of (liabilities r) k)"
  by (simp add: storedRecord_eq setFold_map_of)

lemma processRecord_eq:
  "processRecord truthy rnd numStr st r =
     (if hasOpenBalance truthy rnd numStr r then
        (if row_type r = ''Guest''
         then st\<lparr>vatTypesInfo := snd (recordLiabilities truthy numStr (vatTypesInfo st) r),
                 guestRecords := guestRecords st @ [storedRecord truthy rnd numStr r],
                 totals := \<lparr> total_receivables = total_receivables (totals st) + recordReceivables rnd r,
                             total_liabilities =
                               foldl (\<lambda>l k. AList.update k
                                        (numberOr0 truthy l k
                                         + rnd (numberAt (liabilityInfo truthy numStr r) k)) l)
                                 (total_liabilities (totals st))
                                 (map fst (liabilityInfo truthy numStr r)) \<rparr>\<rparr>
         else st\<lparr>vatTypesInfo := snd (recordLiabilities truthy numStr (vatTypesInfo st) r),
                 externalRecords := externalRecords st @ [storedRecord truthy rnd numStr r],
                 totals := \<lparr> total_receivables = total_receivables (totals st) + recordReceivables rnd r,
                             total_liabilities =
                               foldl (\<lambda>l k. AList.update k
                                        (numberOr0 truthy l k
                                         + rnd (numberAt (liabilityInfo truthy numStr r) k)) l)
                                 (total_liabilities (totals st))
                                 (map fst (liabilityInfo truthy numStr r)) \<rparr>\<rparr>)
      else st\<lparr>vatTypesInfo := snd (recordLiabilities truthy numStr (vatTypesInfo st) r)\<rparr>)"
proof -
  obtain liabs v where rl: "recordLiabilities truthy numStr (vatTypesInfo st) r = (liabs, v)"
    by (cases "recordLiabilities truthy numStr (vatTypesInfo st) r")
  have liabs: "liabs = liabilityInfo truthy numStr r"
    using recordLiabilities_fst[of truthy numStr "vatTypesInfo st" r] rl by simp
  show ?thesis
    unfolding processRecord_def rl liabs
    by (simp add: Let_def storeFold_pair hasOpenBalance_def storedRecord_eq)
qed

subsection \<open>The registry and the main loop\<close>

lemma liabilityStep_snd:
  "snd (liabilityStep truthy numStr (info, vti) t) =
     (if vatKeyOf numStr t \<in> fst ` set vti then vti
      else vti @ [(vatKeyOf numStr t, vatInfoFor (vatKeyOf numStr t) (firstTax t))])"
  by (auto simp: liabilityStep_def Let_def vatKeyOf_def map_of_eq_None_iff[symmetric]
      split: option.splits)

lemma liabilityStep_registry:
  assumes "registryOk numStr T vti" and "t \<in> T"
  shows "registryOk numStr T (snd (liabilityStep truthy numStr (info, vti) t))"
  using assms unfolding registryOk_def liabilityStep_snd by auto

lemma liabilityStep_registry_keys:
  "fst ` set (snd (liabilityStep truthy numStr (info, vti) t)) = insert (vatKeyOf numStr t) (fst ` set vti)"
  unfolding liabilityStep_snd by auto

lemma liabilityFold_registry:
  "registryOk numStr T vti \<Longrightarrow> set ts \<subseteq> T \<Longrightarrow>
   registryOk numStr T (snd (foldl (liabilityStep truthy numStr) (info, vti) ts))"
proof (induction ts arbitrary: info vti)
  case Nil
  then show ?case by simp
next
  case (Cons t ts)
  obtain i1 v1 where s1: "liabilityStep truthy numStr (info, vti) t = (i1, v1)"
    by (cases "liabilityStep truthy numStr (info, vti) t")
  have "registryOk numStr T v1"
    using liabilityStep_registry[of numStr T vti t truthy info] Cons.prems s1 by simp
  from Cons.IH[OF this, of i1] Cons.prems s1 show ?case by simp
qed

lemma liabilityFold_registry_keys:
  "fst ` set (snd (foldl (liabilityStep truthy numStr) (info, vti) ts)) =
     fst ` set vti \<union> vatKeyOf numStr ` set ts"
proof (induction ts arbitrary: info vti)
  case Nil
  show ?case by simp
next
  case (Cons t ts)
  obtain i1 v1 where s1: "liabilityStep truthy numStr (info, vti) t = (i1, v1)"
    by (cases "liabilityStep truthy numStr (info, vti) t")
  have "fst ` set v1 = insert (vatKeyOf numStr t) (fst ` set vti)"
    using liabilityStep_registry_keys[of truthy numStr info vti t] s1 by simp
  with Cons.IH[of i1 v1] s1 show ?case by auto
qed

lemma recordLiabilities_registry:
  "registryOk numStr T vti \<Longrightarrow> set (liabilityTransactions r) \<subseteq> T \<Longrightarrow>
   registryOk numStr T (snd (recordLiabilities truthy numStr vti r))"
  unfolding recordLiabilities_def by (rule liabilityFold_registry)

lemma recordLiabilities_registry_keys:
  "fst ` set (snd (recordLiabilities truthy numStr vti r)) =
     fst ` set vti \<union> vatKeyOf numStr ` set (liabilityTransactions r)"
  unfolding recordLiabilities_def by (rule liabilityFold_registry_keys)

lemma processRecord_vatTypesInfo:
  "vatTypesInfo (processRecord truthy rnd numStr st r) = snd (recordLiabilities truthy numStr (vatTypesInfo st) r)"
  by (simp add: processRecord_eq)

lemma aggregateFold_registry:
  "registryOk numStr T (vatTypesInfo st) \<Longrightarrow>
   (\<forall>r \<in> set rs. set (liabilityTransactions r) \<subseteq> T) \<Longrightarrow>
   registryOk numStr T (vatTypesInfo (foldl (processRecord truthy rnd numStr) st rs))"
proof (induction rs arbitrary: st)
  case Nil
  then show ?case by simp
next
  case (Cons r rs)
  have "registryOk numStr T (vatTypesInfo (processRecord truthy rnd numStr st r))"
    unfolding processRecord_vatTypesInfo
    using Cons.prems by (intro recordLiabilities_registry) auto
  from Cons.IH[OF this] Cons.prems show ?case by simp
qed

lemma aggregateFold_registry_keys:
  "fst ` set (vatTypesInfo (foldl (processRecord truthy rnd numStr) st rs)) =
     fst ` set (vatTypesInfo st) \<union> (\<Union>r \<in> set rs. vatKeyOf numStr ` set (liabilityTransactions r))"
proof (induction rs arbitrary: st)
  case Nil
  show ?case by simp
next
  case (Cons r rs)
  show ?case
    by (simp add: Cons.IH processRecord_vatTypesInfo recordLiabilities_registry_keys Un_assoc)
qed

lemma aggregateFold_guest:
  "guestRecords (foldl (processRecord truthy rnd numStr) st rs) =
     guestRecords st @ map (storedRecord truthy rnd numStr)
       (filter (\<lambda>r. hasOpenBalance truthy rnd numStr r \<and> row_type r = ''Guest'') rs)"
proof (induction rs arbitrary: st)
  case Nil
  show ?case by simp
next
  case (Cons r rs)
  show ?case by (simp add: Cons.IH) (simp add: processRecord_eq)
qed

lemma aggregateFold_external:
  "externalRecords (foldl (processRecord truthy rnd numStr) st rs) =
     externalRecords st @ map (storedRecord truthy rnd numStr)
       (filter (\<lambda>r. hasOpenBalance truthy rnd numStr r \<and> row_type r \<noteq> ''Guest'') rs)"
proof (induction rs arbitrary: st)
  case Nil
  show ?case by simp
next
  case (Cons r rs)
  show ?case by (simp add: Cons.IH) (simp add: processRecord_eq)
qed

text \<open>
  The grand totals are added to in the order of the loop, by the records that pass the
  test.
\<close>

lemma aggregateFold_receivables:
  "total_receivables (totals (foldl (processRecord truthy rnd numStr) st rs)) =
     foldl (\<lambda>sum r. sum + recordReceivables rnd r) (total_receivables (totals st))
       (filter (hasOpenBalance truthy rnd numStr) rs)"
proof (induction rs arbitrary: st)
  case Nil
  show ?case by simp
next
  case (Cons r rs)
  show ?case by (simp add: Cons.IH) (simp add: processRecord_eq)
qed

lemma aggregateFold_liabilities:
  "numberAt (total_liabilities (totals (foldl (processRecord truthy rnd numStr) st rs))) k =
     foldl (\<lambda>sum r. orZero truthy sum + rnd (numberAt (liabilityInfo truthy numStr r) k))
       (numberAt (total_liabilities (totals st)) k)
       (filter (\<lambda>r. hasOpenBalance truthy rnd numStr r
                     \<and> k \<in> fst ` set (liabilityInfo truthy numStr r)) rs)"
proof (induction rs arbitrary: st)
  case Nil
  show ?case by simp
next
  case (Cons r rs)
  have d: "distinct (map fst (liabilityInfo truthy numStr r))" by (rule liabilityInfo_distinct)
  show ?case
    by (simp add: Cons.IH) (simp add: processRecord_eq addFold_number[OF d])
qed

lemma aggregateFold_liability_keys:
  "fst ` set (total_liabilities (totals (foldl (processRecord truthy rnd numStr) st rs))) =
     fst ` set (total_liabilities (totals st))
     \<union> (\<Union>r \<in> set (filter (hasOpenBalance truthy rnd numStr) rs). fst ` set (liabilityInfo truthy numStr r))"
proof (induction rs arbitrary: st)
  case Nil
  show ?case by simp
next
  case (Cons r rs)
  show ?case
    by (simp add: Cons.IH) (auto simp: processRecord_eq addFold_keys)
qed

subsection \<open>Grouping\<close>

lemma createRecord_transactions:
  "createRecordForTransaction t = Inr r \<Longrightarrow>
     transactions r = [t] \<and> receivables r = 0 \<and> liabilities r = [(''total'', 0)]"
  by (auto simp: createRecordForTransaction_def split: if_splits option.splits)

lemma createRecord_id:
  "createRecordForTransaction t = Inr r \<Longrightarrow> getRecordId t = Inr (row_id r)"
  by (auto simp: createRecordForTransaction_def getRecordId_def split: if_splits option.splits)

lemma createRecord_type:
  "createRecordForTransaction t = Inr r \<Longrightarrow> row_type r = referenceType t \<and>
     (referenceType t = ''Guest'' \<or> referenceType t = ''External'')"
  by (auto simp: createRecordForTransaction_def split: if_splits option.splits)

lemma groupStep_cases:
  assumes "groupStep g0 t = Inr g1"
  obtains (push) k grp where "getRecordId t = Inr k" "map_of g0 k = Some grp"
      "g1 = AList.update k (grp\<lparr>transactions := transactions grp @ [t]\<rparr>) g0"
  | (create) k r where "getRecordId t = Inr k" "map_of g0 k = None"
      "k \<notin> set objectPrototypeKeys" "createRecordForTransaction t = Inr r" "g1 = g0 @ [(k, r)]"
  using assms unfolding groupStep_def
  by (auto split: sum.splits option.splits if_splits)

lemma groupTransactions_map_of:
  "groupTransactions g0 txs = Inr g \<Longrightarrow>
     (\<forall>r. map_of g0 k = Some r \<longrightarrow>
        map_of g k = Some (r\<lparr>transactions := transactions r @ filter (\<lambda>t. getRecordId t = Inr k) txs\<rparr>))
   \<and> (map_of g0 k = None \<longrightarrow> filter (\<lambda>t. getRecordId t = Inr k) txs = [] \<longrightarrow> map_of g k = None)
   \<and> (map_of g0 k = None \<longrightarrow>
        (\<forall>t ts. filter (\<lambda>t. getRecordId t = Inr k) txs = t # ts \<longrightarrow>
           (\<exists>r0. createRecordForTransaction t = Inr r0 \<and> map_of g k = Some (r0\<lparr>transactions := t # ts\<rparr>))))"
proof (induction txs arbitrary: g0)
  case Nil
  then show ?case by simp
next
  case (Cons t txs)
  from Cons.prems obtain g1 where s: "groupStep g0 t = Inr g1" and rest: "groupTransactions g1 txs = Inr g"
    by (auto split: sum.splits)
  note IH = Cons.IH[OF rest]
  from s show ?case
  proof (cases rule: groupStep_cases)
    case (push kt grp)
    show ?thesis
    proof (cases "k = kt")
      case True
      have "map_of g1 k = Some (grp\<lparr>transactions := transactions grp @ [t]\<rparr>)"
        using push True by (simp add: update_conv')
      with IH push True show ?thesis by simp
    next
      case False
      have "map_of g1 k = map_of g0 k" using push False by (simp add: update_conv')
      with IH push False show ?thesis by auto
    qed
  next
    case (create kt r)
    note cr = createRecord_transactions[OF create(4)]
    show ?thesis
    proof (cases "k = kt")
      case True
      have "map_of g1 k = Some r" using create True by (simp add: map_add_def)
      with IH create True cr show ?thesis by simp
    next
      case False
      have "map_of g1 k = map_of g0 k" using create False by (auto simp: map_add_def split: option.splits)
      with IH create False show ?thesis by auto
    qed
  qed
qed

lemma groupTransactions_distinct:
  "groupTransactions g0 txs = Inr g \<Longrightarrow> distinct (map fst g0) \<Longrightarrow> distinct (map fst g)"
proof (induction txs arbitrary: g0)
  case Nil
  then show ?case by simp
next
  case (Cons t txs)
  from Cons.prems obtain g1 where s: "groupStep g0 t = Inr g1" and rest: "groupTransactions g1 txs = Inr g"
    by (auto split: sum.splits)
  from s have "distinct (map fst g1)"
  proof (cases rule: groupStep_cases)
    case (push kt grp)
    then show ?thesis using Cons.prems(2) by (simp add: distinct_update)
  next
    case (create kt r)
    then show ?thesis using Cons.prems(2) by (simp add: map_of_eq_None_iff)
  qed
  from Cons.IH[OF rest this] show ?case .
qed

lemma groupTransactions_ids:
  "groupTransactions g0 txs = Inr g \<Longrightarrow> \<forall>p \<in> set g0. row_id (snd p) = fst p \<Longrightarrow>
   \<forall>p \<in> set g. row_id (snd p) = fst p"
proof (induction txs arbitrary: g0)
  case Nil
  then show ?case by simp
next
  case (Cons t txs)
  from Cons.prems obtain g1 where s: "groupStep g0 t = Inr g1" and rest: "groupTransactions g1 txs = Inr g"
    by (auto split: sum.splits)
  from s have "\<forall>p \<in> set g1. row_id (snd p) = fst p"
  proof (cases rule: groupStep_cases)
    case (push kt grp)
    have "(kt, grp) \<in> set g0" using push(2) by (rule map_of_SomeD)
    then have "row_id grp = kt" using Cons.prems(2) by auto
    moreover have "set g1 \<subseteq> insert (kt, grp\<lparr>transactions := transactions grp @ [t]\<rparr>) (set g0)"
      unfolding push(3) by (rule update_set_subset)
    ultimately show ?thesis using Cons.prems(2) by auto
  next
    case (create kt r)
    have "row_id r = kt" using createRecord_id[OF create(4)] create(1) by simp
    then show ?thesis using create Cons.prems(2) by auto
  qed
  from Cons.IH[OF rest this] show ?case .
qed

text \<open>When the grouping succeeds, and how it fails.\<close>

lemma groupable_iff: "groupable t \<longleftrightarrow> (\<exists>k. getRecordId t = Inr k \<and> k \<notin> set objectPrototypeKeys)"
  by (auto simp: groupable_def getRecordId_def split: option.splits)

lemma groupStep_keys:
  assumes "groupStep g0 t = Inr g1"
  shows "\<exists>k. getRecordId t = Inr k \<and> fst ` set g1 = insert k (fst ` set g0)
            \<and> (k \<in> fst ` set g0 \<or> k \<notin> set objectPrototypeKeys)"
  using assms
proof (cases rule: groupStep_cases)
  case (push k grp)
  have "k \<in> fst ` set g0" using push(2) by (metis map_of_eq_None_iff option.distinct(1))
  then show ?thesis using push by (auto simp: keys_update)
next
  case (create k r)
  then show ?thesis by auto
qed

lemma groupTransactions_succeeds_imp:
  "groupTransactions g0 txs = Inr g \<Longrightarrow> fst ` set g0 \<inter> set objectPrototypeKeys = {} \<Longrightarrow>
   (\<forall>t \<in> set txs. groupable t) \<and> fst ` set g \<inter> set objectPrototypeKeys = {}"
proof (induction txs arbitrary: g0)
  case Nil
  then show ?case by simp
next
  case (Cons t txs)
  from Cons.prems obtain g1 where s: "groupStep g0 t = Inr g1" and rest: "groupTransactions g1 txs = Inr g"
    by (auto split: sum.splits)
  from groupStep_keys[OF s] obtain k where k: "getRecordId t = Inr k"
    "fst ` set g1 = insert k (fst ` set g0)" "k \<in> fst ` set g0 \<or> k \<notin> set objectPrototypeKeys"
    by blast
  have np: "k \<notin> set objectPrototypeKeys" using k(3) Cons.prems(2) by blast
  then have g1: "fst ` set g1 \<inter> set objectPrototypeKeys = {}" using k(2) Cons.prems(2) by auto
  have "groupable t" using k(1) np by (auto simp: groupable_iff)
  with Cons.IH[OF rest g1] show ?case by simp
qed

lemma groupStep_succeeds:
  assumes "groupable t" and "referenceType t = ''Guest'' \<or> referenceType t = ''External''"
  shows "\<exists>g1. groupStep g0 t = Inr g1"
  using assms
  by (auto simp: groupStep_def groupable_def getRecordId_def createRecordForTransaction_def
      split: option.splits)

lemma groupTransactions_succeeds:
  "\<forall>t \<in> set txs. groupable t \<and> (referenceType t = ''Guest'' \<or> referenceType t = ''External'') \<Longrightarrow>
   \<exists>g. groupTransactions g0 txs = Inr g"
proof (induction txs arbitrary: g0)
  case Nil
  show ?case by simp
next
  case (Cons t txs)
  from groupStep_succeeds[of t g0] Cons.prems obtain g1 where s: "groupStep g0 t = Inr g1" by auto
  from Cons.IH[of g1] Cons.prems obtain g where "groupTransactions g1 txs = Inr g" by auto
  with s show ?case by simp
qed

lemma groupStep_error:
  assumes "groupStep g0 t = Inl e" and "referenceType t = ''Guest'' \<or> referenceType t = ''External''"
  shows "e = TypeError"
  using assms
  by (auto simp: groupStep_def getRecordId_def createRecordForTransaction_def
      split: option.splits if_splits sum.splits)

lemma groupTransactions_error:
  "groupTransactions g0 txs = Inl e \<Longrightarrow>
   \<forall>t \<in> set txs. referenceType t = ''Guest'' \<or> referenceType t = ''External'' \<Longrightarrow> e = TypeError"
proof (induction txs arbitrary: g0)
  case Nil
  then show ?case by simp
next
  case (Cons t txs)
  show ?case
  proof (cases "groupStep g0 t")
    case (Inl e')
    with Cons.prems have "e' = e" by simp
    with Inl Cons.prems(2) groupStep_error[of g0 t e] show ?thesis by simp
  next
    case (Inr g1)
    with Cons.prems have "groupTransactions g1 txs = Inl e" by simp
    from Cons.IH[OF this] Cons.prems(2) show ?thesis by simp
  qed
qed

text \<open>The values of the object \<^verbatim>\<open>groups\<close>.\<close>

lemma objectValues_set: "set (objectValues obj) = snd ` set obj"
  by (auto simp: objectValues_def)

lemma objectValues_distinct:
  assumes d: "distinct (map fst obj)" and ids: "\<forall>p \<in> set obj. f (snd p) = fst p"
  shows "distinct (map f (objectValues obj))"
proof -
  let ?A = "sort_key (\<lambda>p. digitsValue (fst p)) (filter (\<lambda>p. isArrayIndex (fst p)) obj)"
  let ?B = "filter (\<lambda>p. \<not> isArrayIndex (fst p)) obj"
  have dobj: "distinct obj" using d by (simp add: distinct_map)
  have sub: "set (?A @ ?B) \<subseteq> set obj" by auto
  have dAB: "distinct (?A @ ?B)" using dobj by auto
  have inj: "inj_on fst (set obj)" using d by (simp add: distinct_map)
  have "map f (objectValues obj) = map fst (?A @ ?B)"
    unfolding objectValues_def using ids sub by (auto simp del: map_append filter_append)
  moreover have "distinct (map fst (?A @ ?B))"
    using dAB inj sub by (simp only: distinct_map) (blast intro: inj_on_subset)
  ultimately show ?thesis by simp
qed

subsection \<open>The report\<close>

lemma report_fields:
  assumes "generateORLReport truthy rnd numStr data property startDate endDate = Inr rep"
  shows "\<exists>g. groupTransactions []
               (filter (\<lambda>t. referenceType t = ''Guest'' \<or> referenceType t = ''External'') data) = Inr g
           \<and> rep_transactions rep =
               filter (\<lambda>t. referenceType t = ''Guest'' \<or> referenceType t = ''External'') data
           \<and> rep_groupedRecords rep = objectValues g
           \<and> rep_state rep = aggregate truthy rnd numStr (rep_groupedRecords rep)
           \<and> rep_columns rep = liabilitiesColumns numStr (rep_state rep)
           \<and> rep_rows rep =
               map (rowFor truthy property (rep_columns rep))
                 (guestRecords (rep_state rep) @ externalRecords (rep_state rep))
           \<and> rep_totalRow rep = totalRowFor rnd (rep_columns rep) (totals (rep_state rep))
           \<and> sheet_body rep = rep_rows rep
           \<and> sheet_totals rep = (if rep_rows rep \<noteq> [] then Some (rep_totalRow rep) else None)"
  using assms unfolding generateORLReport_def Let_def
  by (auto split: sum.splits)

lemma grouped_records:
  assumes g: "groupTransactions [] txs = Inr g"
  shows "distinct (map row_id (objectValues g))"
    and "row_id ` set (objectValues g) = {k. \<exists>t \<in> set txs. getRecordId t = Inr k}"
    and "r \<in> set (objectValues g) \<Longrightarrow>
           transactions r = filter (\<lambda>t. getRecordId t = Inr (row_id r)) txs
           \<and> (\<exists>t ts r0. transactions r = t # ts \<and> createRecordForTransaction t = Inr r0
                 \<and> r = r0\<lparr>transactions := t # ts\<rparr>)"
proof -
  have d: "distinct (map fst g)" using groupTransactions_distinct[OF g] by simp
  have ids: "\<forall>p \<in> set g. row_id (snd p) = fst p" using groupTransactions_ids[OF g] by simp
  show "distinct (map row_id (objectValues g))" using objectValues_distinct[OF d ids] .
  note m = groupTransactions_map_of[OF g]
  have none: "\<And>k. map_of [] k = (None :: 'n LRReportRowItemModel option)" by simp
  have mem: "\<And>k r. (k, r) \<in> set g \<longleftrightarrow> map_of g k = Some r"
    using d by (auto intro: map_of_is_SomeI dest: map_of_SomeD)
  have key: "\<And>k. (\<exists>r. map_of g k = Some r) \<longleftrightarrow> filter (\<lambda>t. getRecordId t = Inr k) txs \<noteq> []"
  proof -
    fix k
    show "(\<exists>r. map_of g k = Some r) \<longleftrightarrow> filter (\<lambda>t. getRecordId t = Inr k) txs \<noteq> []"
    proof (cases "filter (\<lambda>t. getRecordId t = Inr k) txs")
      case Nil
      then show ?thesis using m[of k] by simp
    next
      case (Cons t ts)
      then show ?thesis using m[of k] by auto
    qed
  qed
  show "row_id ` set (objectValues g) = {k. \<exists>t \<in> set txs. getRecordId t = Inr k}"
  proof (rule set_eqI)
    fix k
    have "k \<in> row_id ` set (objectValues g) \<longleftrightarrow> (\<exists>r. (k, r) \<in> set g)"
      using ids by (force simp: objectValues_set)
    also have "\<dots> \<longleftrightarrow> filter (\<lambda>t. getRecordId t = Inr k) txs \<noteq> []"
      using key[of k] mem by simp
    also have "\<dots> \<longleftrightarrow> k \<in> {k. \<exists>t \<in> set txs. getRecordId t = Inr k}"
      by (auto simp: filter_empty_conv)
    finally show "k \<in> row_id ` set (objectValues g) \<longleftrightarrow> k \<in> {k. \<exists>t \<in> set txs. getRecordId t = Inr k}" .
  qed
  assume "r \<in> set (objectValues g)"
  then obtain k where kr: "(k, r) \<in> set g" by (auto simp: objectValues_set)
  then have k: "k = row_id r" using ids by auto
  have mr: "map_of g (row_id r) = Some r" using kr k mem by simp
  then have ne: "filter (\<lambda>t. getRecordId t = Inr (row_id r)) txs \<noteq> []" using key[of "row_id r"] by auto
  then obtain t ts where f: "filter (\<lambda>t. getRecordId t = Inr (row_id r)) txs = t # ts"
    by (cases "filter (\<lambda>t. getRecordId t = Inr (row_id r)) txs") auto
  with m[of "row_id r"] obtain r0 where r0: "createRecordForTransaction t = Inr r0"
    "map_of g (row_id r) = Some (r0\<lparr>transactions := t # ts\<rparr>)" by auto
  with mr have "r = r0\<lparr>transactions := t # ts\<rparr>" by simp
  with f r0 show "transactions r = filter (\<lambda>t. getRecordId t = Inr (row_id r)) txs
           \<and> (\<exists>t ts r0. transactions r = t # ts \<and> createRecordForTransaction t = Inr r0
                 \<and> r = r0\<lparr>transactions := t # ts\<rparr>)" by auto
qed

lemma created_fields:
  assumes "createRecordForTransaction t = Inr r0"
  shows "(referenceType t = ''Guest'' \<longrightarrow>
            (\<exists>res. reservation t = Some res \<and> row_type r0 = ''Guest'' \<and> row_id r0 = res_id res
               \<and> row_arrival r0 = Some (take 10 (arrival res))
               \<and> row_departure r0 = Some (take 10 (departure res))
               \<and> row_status r0 = Some (status res)))
       \<and> (referenceType t \<noteq> ''Guest'' \<longrightarrow>
            referenceType t = ''External'' \<and> row_type r0 = ''External'' \<and> row_id r0 = reference t
             \<and> row_arrival r0 = None \<and> row_departure r0 = None \<and> row_status r0 = None)"
  using assms by (auto simp: createRecordForTransaction_def split: if_splits option.splits)

text \<open>
  \<^bold>\<open>C3.\<close> Whenever the report is produced: only the transactions with reference type
  \<^verbatim>\<open>Guest\<close> or \<^verbatim>\<open>External\<close> are grouped; the grouping key is the reservation id of a
  guest transaction and the reference of any other; the records have distinct ids, one
  for each key that occurs; the transactions of a record are exactly the grouped
  transactions with the record's id as key, in the order of the input; and the first of
  them gives the record its kind, its id and, for a guest record, the arrival, the
  departure (their first 10 characters) and the status.
\<close>

theorem grouping_by_record_id:
  assumes "generateORLReport truthy rnd numStr data property startDate endDate = Inr rep"
  shows "rep_transactions rep =
           filter (\<lambda>t. referenceType t = ''Guest'' \<or> referenceType t = ''External'') data
       \<and> (\<forall>t \<in> set (rep_transactions rep).
             (referenceType t = ''Guest'' \<longrightarrow>
                (\<exists>res. reservation t = Some res \<and> getRecordId t = Inr (res_id res)))
           \<and> (referenceType t \<noteq> ''Guest'' \<longrightarrow> getRecordId t = Inr (reference t)))
       \<and> distinct (map row_id (rep_groupedRecords rep))
       \<and> row_id ` set (rep_groupedRecords rep) =
           {k. \<exists>t \<in> set (rep_transactions rep). getRecordId t = Inr k}
       \<and> (\<forall>r \<in> set (rep_groupedRecords rep).
             transactions r = filter (\<lambda>t. getRecordId t = Inr (row_id r)) (rep_transactions rep)
           \<and> (\<exists>t ts. transactions r = t # ts
                \<and> (referenceType t = ''Guest'' \<longrightarrow>
                      (\<exists>res. reservation t = Some res \<and> row_type r = ''Guest''
                         \<and> row_id r = res_id res
                         \<and> row_arrival r = Some (take 10 (arrival res))
                         \<and> row_departure r = Some (take 10 (departure res))
                         \<and> row_status r = Some (status res)))
                \<and> (referenceType t \<noteq> ''Guest'' \<longrightarrow>
                      referenceType t = ''External'' \<and> row_type r = ''External''
                       \<and> row_id r = reference t \<and> row_arrival r = None
                       \<and> row_departure r = None \<and> row_status r = None)))"
proof -
  from report_fields[OF assms] obtain g where
    g: "groupTransactions [] (rep_transactions rep) = Inr g"
    and txs: "rep_transactions rep =
           filter (\<lambda>t. referenceType t = ''Guest'' \<or> referenceType t = ''External'') data"
    and gr: "rep_groupedRecords rep = objectValues g" by auto
  have ok: "\<forall>t \<in> set (rep_transactions rep). groupable t"
    using groupTransactions_succeeds_imp[OF g] by simp
  have keys: "\<forall>t \<in> set (rep_transactions rep).
             (referenceType t = ''Guest'' \<longrightarrow>
                (\<exists>res. reservation t = Some res \<and> getRecordId t = Inr (res_id res)))
           \<and> (referenceType t \<noteq> ''Guest'' \<longrightarrow> getRecordId t = Inr (reference t))"
    using ok by (auto simp: groupable_def getRecordId_def split: option.splits if_splits)
  have recs: "\<forall>r \<in> set (rep_groupedRecords rep).
             transactions r = filter (\<lambda>t. getRecordId t = Inr (row_id r)) (rep_transactions rep)
           \<and> (\<exists>t ts. transactions r = t # ts
                \<and> (referenceType t = ''Guest'' \<longrightarrow>
                      (\<exists>res. reservation t = Some res \<and> row_type r = ''Guest''
                         \<and> row_id r = res_id res
                         \<and> row_arrival r = Some (take 10 (arrival res))
                         \<and> row_departure r = Some (take 10 (departure res))
                         \<and> row_status r = Some (status res)))
                \<and> (referenceType t \<noteq> ''Guest'' \<longrightarrow>
                      referenceType t = ''External'' \<and> row_type r = ''External''
                       \<and> row_id r = reference t \<and> row_arrival r = None
                       \<and> row_departure r = None \<and> row_status r = None))"
  proof
    fix r assume "r \<in> set (rep_groupedRecords rep)"
    then have r: "r \<in> set (objectValues g)" using gr by simp
    from grouped_records(3)[OF g r] obtain t ts r0 where
      tr: "transactions r = filter (\<lambda>t. getRecordId t = Inr (row_id r)) (rep_transactions rep)"
      and hd: "transactions r = t # ts" and cr: "createRecordForTransaction t = Inr r0"
      and req: "r = r0\<lparr>transactions := t # ts\<rparr>" by auto
    have f: "row_type r = row_type r0" "row_id r = row_id r0" "row_arrival r = row_arrival r0"
      "row_departure r = row_departure r0" "row_status r = row_status r0"
      by (simp_all add: req)
    from created_fields[OF cr] tr hd show "transactions r = filter (\<lambda>t. getRecordId t = Inr (row_id r)) (rep_transactions rep)
           \<and> (\<exists>t ts. transactions r = t # ts
                \<and> (referenceType t = ''Guest'' \<longrightarrow>
                      (\<exists>res. reservation t = Some res \<and> row_type r = ''Guest''
                         \<and> row_id r = res_id res
                         \<and> row_arrival r = Some (take 10 (arrival res))
                         \<and> row_departure r = Some (take 10 (departure res))
                         \<and> row_status r = Some (status res)))
                \<and> (referenceType t \<noteq> ''Guest'' \<longrightarrow>
                      referenceType t = ''External'' \<and> row_type r = ''External''
                       \<and> row_id r = reference t \<and> row_arrival r = None
                       \<and> row_departure r = None \<and> row_status r = None))"
      unfolding f by blast
  qed
  have d1: "distinct (map row_id (rep_groupedRecords rep))"
    using grouped_records(1)[OF g] gr by simp
  have d2: "row_id ` set (rep_groupedRecords rep) =
           {k. \<exists>t \<in> set (rep_transactions rep). getRecordId t = Inr k}"
    using grouped_records(2)[OF g] gr by simp
  show ?thesis
    by (intro conjI) (rule txs, rule keys, rule d1, rule d2, rule recs)
qed

theorem grouping_by_record_id_witness:
  "\<exists>rep. generateORLReport nonZero round2 percentString
            (exampleData @ [(externalTransaction ''H1'' (5::rat) ''Receivables'' ''Revenues'' None)
                              \<lparr>referenceType := ''House''\<rparr>])
            ''BER'' ''2020-01-01'' ''2020-01-31'' = Inr rep
         \<and> rep_transactions rep = exampleData
         \<and> distinct (map row_id (rep_groupedRecords rep))
         \<and> map (\<lambda>r. (row_id r, row_type r, row_arrival r, length (transactions r)))
               (rep_groupedRecords rep)
             = [(''R1'', ''Guest'', Some ''2020-01-01'', 2), (''EXT1'', ''External'', None, 1)]"
proof -
  let ?data = "exampleData @ [(externalTransaction ''H1'' (5::rat) ''Receivables'' ''Revenues'' None)
                              \<lparr>referenceType := ''House''\<rparr>]"
  have v: "map_sum id (\<lambda>rep. map (\<lambda>r. (row_id r, row_type r, row_arrival r, length (transactions r)))
               (rep_groupedRecords rep))
             (generateORLReport nonZero round2 percentString ?data ''BER'' ''2020-01-01'' ''2020-01-31'')
           = Inr [(''R1'', ''Guest'', Some ''2020-01-01'', 2), (''EXT1'', ''External'', None, 1)]"
    by code_simp
  then obtain rep where
    h: "generateORLReport nonZero round2 percentString ?data ''BER'' ''2020-01-01'' ''2020-01-31'' = Inr rep"
    by (cases "generateORLReport nonZero round2 percentString ?data ''BER'' ''2020-01-01'' ''2020-01-31''")
      auto
  have f: "filter (\<lambda>t. referenceType t = ''Guest'' \<or> referenceType t = ''External'') ?data
           = exampleData"
    by (simp add: exampleData_def guestTransaction_def externalTransaction_def)
  from grouping_by_record_id[OF h] have
    "rep_transactions rep = exampleData" "distinct (map row_id (rep_groupedRecords rep))"
    unfolding f by simp_all
  moreover from v h have "map (\<lambda>r. (row_id r, row_type r, row_arrival r, length (transactions r)))
               (rep_groupedRecords rep)
             = [(''R1'', ''Guest'', Some ''2020-01-01'', 2), (''EXT1'', ''External'', None, 1)]"
    by simp
  ultimately show ?thesis using h by (intro exI[of _ rep] conjI)
qed

lemma report_error:
  assumes "generateORLReport truthy rnd numStr data property startDate endDate = Inl e"
  shows "e = TypeError"
proof -
  let ?txs = "filter (\<lambda>t. referenceType t = ''Guest'' \<or> referenceType t = ''External'') data"
  from assms have "groupTransactions [] ?txs = Inl e"
    unfolding generateORLReport_def Let_def by (auto split: sum.splits)
  from groupTransactions_error[OF this] show ?thesis by simp
qed

lemma report_succeeds:
  assumes "groupableInput data"
  shows "\<exists>rep. generateORLReport truthy rnd numStr data property startDate endDate = Inr rep"
proof -
  let ?txs = "filter (\<lambda>t. referenceType t = ''Guest'' \<or> referenceType t = ''External'') data"
  have "\<forall>t \<in> set ?txs. groupable t \<and> (referenceType t = ''Guest'' \<or> referenceType t = ''External'')"
    using assms unfolding groupableInput_def by auto
  from groupTransactions_succeeds[OF this, of "[]"] obtain g where "groupTransactions [] ?txs = Inr g" by blast
  then show ?thesis unfolding generateORLReport_def Let_def by simp
qed

text \<open>
  \<^bold>\<open>C9\<close> (amended). \<^verbatim>\<open>createRecordForTransaction\<close> throws the error for an unsupported
  reference type exactly when the reference type is neither \<^verbatim>\<open>Guest\<close> nor \<^verbatim>\<open>External\<close>;
  the report never fails with that error, whatever the input; and it is produced, without
  any error, for every input in which each guest transaction has a reservation and no
  grouping key of a guest or external transaction names a member of
  \<^verbatim>\<open>Object.prototype\<close>.
\<close>

theorem unsupported_reference_type_unreachable:
  "((\<exists>s. createRecordForTransaction t = Inl (UnsupportedReferenceType s)) \<longleftrightarrow>
      referenceType t \<noteq> ''Guest'' \<and> referenceType t \<noteq> ''External'')
   \<and> (\<forall>s. generateORLReport truthy rnd numStr data property startDate endDate
            \<noteq> Inl (UnsupportedReferenceType s))
   \<and> (groupableInput data \<longrightarrow>
        (\<exists>rep. generateORLReport truthy rnd numStr data property startDate endDate = Inr rep))"
proof (intro conjI)
  show "(\<exists>s. createRecordForTransaction t = Inl (UnsupportedReferenceType s)) \<longleftrightarrow>
      referenceType t \<noteq> ''Guest'' \<and> referenceType t \<noteq> ''External''"
    by (auto simp: createRecordForTransaction_def split: option.splits)
  show "\<forall>s. generateORLReport truthy rnd numStr data property startDate endDate
            \<noteq> Inl (UnsupportedReferenceType s)"
    using report_error[of truthy rnd numStr data property startDate endDate] by auto
  show "groupableInput data \<longrightarrow>
        (\<exists>rep. generateORLReport truthy rnd numStr data property startDate endDate = Inr rep)"
    using report_succeeds by blast
qed

theorem unsupported_reference_type_unreachable_witness:
  "groupableInput exampleData
   \<and> (\<exists>rep. generateORLReport nonZero round2 percentString exampleData ''BER'' ''2020-01-01'' ''2020-01-31''
              = Inr rep)
   \<and> (\<exists>s. createRecordForTransaction
              ((externalTransaction ''H1'' (5::rat) ''Receivables'' ''Revenues'' None)
                 \<lparr>referenceType := ''House''\<rparr>)
            = Inl (UnsupportedReferenceType s))"
proof -
  have h: "groupableInput exampleData"
    by (simp add: groupableInput_def exampleData_def groupable_def guestTransaction_def
        externalTransaction_def reservationR1_def objectPrototypeKeys_def)
  note th = unsupported_reference_type_unreachable[of
      "(externalTransaction ''H1'' (5::rat) ''Receivables'' ''Revenues'' None)\<lparr>referenceType := ''House''\<rparr>"
      nonZero round2 percentString exampleData "''BER''" "''2020-01-01''" "''2020-01-31''"]
  have ref: "referenceType ((externalTransaction ''H1'' (5::rat) ''Receivables'' ''Revenues'' None)\<lparr>referenceType := ''House''\<rparr>) = ''House''"
    by simp
  from th h ref show ?thesis by simp
qed

text \<open>
  The report is not free of errors for all inputs: a guest transaction without a
  reservation passes the filter, and reading its reservation's id throws a TypeError.
\<close>

theorem missing_reservation_counterexample:
  "generateORLReport nonZero round2 percentString
     [(guestTransaction reservationR1 100 ''Receivables'' ''Revenues'' None)\<lparr>reservation := None\<rparr>]
     ''BER'' ''2020-01-01'' ''2020-01-31'' = Inl TypeError"
  by (simp add: generateORLReport_def guestTransaction_def groupStep_def getRecordId_def)

lemma objectValues_single: "objectValues [(k, r)] = [r]"
  by (simp add: objectValues_def)

text \<open>
  \<^bold>\<open>C10.\<close> The keys of guest and external transactions share one namespace: a guest
  transaction and an external transaction whose reference is the guest's reservation id
  are grouped into one record, which has the kind and the static fields of the
  transaction that comes first.
\<close>

theorem shared_key_namespace:
  assumes "referenceType g = ''Guest''" and "reservation g = Some res"
    and "referenceType e = ''External''" and "reference e = res_id res"
    and "res_id res \<notin> set objectPrototypeKeys"
  shows "map_sum id rep_groupedRecords
           (generateORLReport truthy rnd numStr [g, e] property startDate endDate)
         = Inr [\<lparr> row_id = res_id res, row_type = ''Guest'',
                   row_arrival = Some (take 10 (arrival res)),
                   row_departure = Some (take 10 (departure res)),
                   row_status = Some (status res),
                   transactions = [g, e], receivables = 0, liabilities = [(''total'', 0)] \<rparr>]
       \<and> map_sum id rep_groupedRecords
           (generateORLReport truthy rnd numStr [e, g] property startDate endDate)
         = Inr [\<lparr> row_id = reference e, row_type = ''External'',
                   row_arrival = None, row_departure = None, row_status = None,
                   transactions = [e, g], receivables = 0, liabilities = [(''total'', 0)] \<rparr>]"
proof -
  have ge: "groupTransactions [] [g, e] =
     Inr [(res_id res, \<lparr> row_id = res_id res, row_type = ''Guest'',
                   row_arrival = Some (take 10 (arrival res)),
                   row_departure = Some (take 10 (departure res)),
                   row_status = Some (status res),
                   transactions = [g, e], receivables = 0, liabilities = [(''total'', 0)] \<rparr>)]"
    using assms by (simp add: groupStep_def getRecordId_def createRecordForTransaction_def)
  have eg: "groupTransactions [] [e, g] =
     Inr [(reference e, \<lparr> row_id = reference e, row_type = ''External'',
                   row_arrival = None, row_departure = None, row_status = None,
                   transactions = [e, g], receivables = 0, liabilities = [(''total'', 0)] \<rparr>)]"
    using assms by (simp add: groupStep_def getRecordId_def createRecordForTransaction_def)
  show ?thesis
    using assms(1,3) ge eg
    by (simp add: generateORLReport_def Let_def objectValues_single)
qed

theorem shared_key_namespace_witness:
  "map_sum id (map (\<lambda>r. (row_id r, row_type r, row_arrival r, length (transactions r))))
     (map_sum id rep_groupedRecords
        (generateORLReport nonZero round2 percentString
           [guestTransaction reservationR1 100 ''Receivables'' ''Revenues'' None,
            externalTransaction ''R1'' 20 ''Payments'' ''Liabilities'' None]
           ''BER'' ''2020-01-01'' ''2020-01-31''))
   = Inr [(''R1'', ''Guest'', Some ''2020-01-01'', 2)]
   \<and> map_sum id (map (\<lambda>r. (row_id r, row_type r, row_arrival r, length (transactions r))))
     (map_sum id rep_groupedRecords
        (generateORLReport nonZero round2 percentString
           [externalTransaction ''R1'' 20 ''Payments'' ''Liabilities'' None,
            guestTransaction reservationR1 100 ''Receivables'' ''Revenues'' None]
           ''BER'' ''2020-01-01'' ''2020-01-31''))
   = Inr [(''R1'', ''External'', None, 2)]"
proof -
  let ?g = "guestTransaction reservationR1 100 ''Receivables'' ''Revenues'' None"
  let ?e = "externalTransaction ''R1'' 20 ''Payments'' ''Liabilities'' None"
  have h: "referenceType ?g = ''Guest''" "reservation ?g = Some reservationR1"
    "referenceType ?e = ''External''" "reference ?e = res_id reservationR1"
    "res_id reservationR1 \<notin> set objectPrototypeKeys"
    by (simp_all add: guestTransaction_def externalTransaction_def reservationR1_def
        objectPrototypeKeys_def)
  from shared_key_namespace[OF h, of nonZero round2 percentString "''BER''" "''2020-01-01''" "''2020-01-31''"]
  show ?thesis by (simp add: reservationR1_def externalTransaction_def)
qed

text \<open>
  \<^bold>\<open>C7.\<close> The VAT key of a transaction is \<^verbatim>\<open>{type}-{percent}\<close> of its first tax entry
  when it has one and the type of that entry is not \<^verbatim>\<open>Without\<close>; it is \<^verbatim>\<open>Without\<close>
  exactly in the other cases (no list of taxes, an empty list, a first entry of type
  \<^verbatim>\<open>Without\<close>). A liability transaction adds its amount under this key and under
  \<^verbatim>\<open>total\<close>.
\<close>

theorem vat_key_derivation:
  "(\<forall>x xs. taxes t = Some (x # xs) \<and> tax_type x \<noteq> ''Without'' \<longrightarrow>
       vatKeyOf numStr t = tax_type x @ ''-'' @ numStr (percent x))
   \<and> (vatKeyOf numStr t = ''Without'' \<longleftrightarrow>
       \<not> (\<exists>x xs. taxes t = Some (x # xs) \<and> tax_type x \<noteq> ''Without''))
   \<and> fst (liabilityStep truthy numStr (info, vti) t) =
       AList.update ''total'' (numberAt info ''total'' + grossAmount t)
         (AList.update (vatKeyOf numStr t)
            (numberOr0 truthy info (vatKeyOf numStr t) + grossAmount t) info)"
proof (intro conjI)
  show "\<forall>x xs. taxes t = Some (x # xs) \<and> tax_type x \<noteq> ''Without'' \<longrightarrow>
       vatKeyOf numStr t = tax_type x @ ''-'' @ numStr (percent x)"
    by (simp add: vatKeyOf_def getVatTypeKey_def firstTax_def)
  have nw: "\<And>x. tax_type x @ ''-'' @ numStr (percent x) \<noteq> ''Without''"
  proof
    fix x assume e: "tax_type x @ ''-'' @ numStr (percent x) = ''Without''"
    have "CHR ''-'' \<in> set (tax_type x @ ''-'' @ numStr (percent x))" by simp
    then have "CHR ''-'' \<in> set ''Without''" by (simp only: e)
    then show False by simp
  qed
  show "vatKeyOf numStr t = ''Without'' \<longleftrightarrow>
       \<not> (\<exists>x xs. taxes t = Some (x # xs) \<and> tax_type x \<noteq> ''Without'')"
    using nw by (auto simp: vatKeyOf_def getVatTypeKey_def firstTax_def split: option.splits list.splits)
  show "fst (liabilityStep truthy numStr (info, vti) t) =
       AList.update ''total'' (numberAt info ''total'' + grossAmount t)
         (AList.update (vatKeyOf numStr t)
            (numberOr0 truthy info (vatKeyOf numStr t) + grossAmount t) info)"
    using vat_key_not_total[of numStr "firstTax t"]
    by (simp add: liabilityStep_fst numberAt_update vatKeyOf_def)
qed

theorem vat_key_derivation_witness:
  "vatKeyOf percentString
     (guestTransaction reservationR1 (50::rat) ''Payments'' ''Liabilities''
        (Some [\<lparr> tax_type = ''A'', percent = 10 \<rparr>, \<lparr> tax_type = ''B'', percent = 7 \<rparr>])) = ''A-10''
   \<and> vatKeyOf percentString
       (guestTransaction reservationR1 (50::rat) ''Payments'' ''Liabilities'' (Some [])) = ''Without''
   \<and> vatKeyOf percentString
       (guestTransaction reservationR1 (50::rat) ''Payments'' ''Liabilities'' None) = ''Without''
   \<and> vatKeyOf percentString
       (guestTransaction reservationR1 (50::rat) ''Payments'' ''Liabilities''
          (Some [\<lparr> tax_type = ''Without'', percent = 0 \<rparr>])) = ''Without''"
proof -
  have p10: "percentString 10 = ''10''" by code_simp
  note a = vat_key_derivation[of "guestTransaction reservationR1 (50::rat) ''Payments'' ''Liabilities''
        (Some [\<lparr> tax_type = ''A'', percent = 10 \<rparr>, \<lparr> tax_type = ''B'', percent = 7 \<rparr>])" percentString nonZero "[]" "[]"]
  note b = vat_key_derivation[of "guestTransaction reservationR1 (50::rat) ''Payments'' ''Liabilities'' (Some [])"
        percentString nonZero "[]" "[]"]
  note c = vat_key_derivation[of "guestTransaction reservationR1 (50::rat) ''Payments'' ''Liabilities'' None"
        percentString nonZero "[]" "[]"]
  note d = vat_key_derivation[of "guestTransaction reservationR1 (50::rat) ''Payments'' ''Liabilities''
          (Some [\<lparr> tax_type = ''Without'', percent = 0 \<rparr>])" percentString nonZero "[]" "[]"]
  have 1: "vatKeyOf percentString
     (guestTransaction reservationR1 (50::rat) ''Payments'' ''Liabilities''
        (Some [\<lparr> tax_type = ''A'', percent = 10 \<rparr>, \<lparr> tax_type = ''B'', percent = 7 \<rparr>])) = ''A-10''"
    using a p10 by (simp add: guestTransaction_def)
  have 2: "vatKeyOf percentString
       (guestTransaction reservationR1 (50::rat) ''Payments'' ''Liabilities'' (Some [])) = ''Without''"
    using b by (simp add: guestTransaction_def)
  have 3: "vatKeyOf percentString
       (guestTransaction reservationR1 (50::rat) ''Payments'' ''Liabilities'' None) = ''Without''"
    using c by (simp add: guestTransaction_def)
  have 4: "vatKeyOf percentString
       (guestTransaction reservationR1 (50::rat) ''Payments'' ''Liabilities''
          (Some [\<lparr> tax_type = ''Without'', percent = 0 \<rparr>])) = ''Without''"
    using d by (simp add: guestTransaction_def)
  from 1 2 3 4 show ?thesis by simp
qed

subsection \<open>The records and totals of the main loop\<close>

lemma hasOpenBalance_iff:
  "hasOpenBalance truthy rnd numStr r \<longleftrightarrow>
     truthy (rnd (foldl (\<lambda>sum t. sum + grossAmount t) 0 (receivableTransactions r)))
     \<or> truthy (rnd (foldl (\<lambda>sum t. sum + grossAmount t) 0 (liabilityTransactions r)))"
  by (simp add: hasOpenBalance_def recordReceivables_def liabilityInfo_total)

lemma processRecord_core:
  assumes "guestRecords st = guestRecords st'" "externalRecords st = externalRecords st'"
    "totals st = totals st'"
  shows "guestRecords (processRecord truthy rnd numStr st r) = guestRecords (processRecord truthy rnd numStr st' r)
       \<and> externalRecords (processRecord truthy rnd numStr st r) = externalRecords (processRecord truthy rnd numStr st' r)
       \<and> totals (processRecord truthy rnd numStr st r) = totals (processRecord truthy rnd numStr st' r)"
  using assms by (simp add: processRecord_eq)

lemma processRecord_closed:
  assumes "\<not> hasOpenBalance truthy rnd numStr r"
  shows "guestRecords (processRecord truthy rnd numStr st r) = guestRecords st
       \<and> externalRecords (processRecord truthy rnd numStr st r) = externalRecords st
       \<and> totals (processRecord truthy rnd numStr st r) = totals st"
  using assms by (simp add: processRecord_eq)

lemma aggregateFold_core:
  "guestRecords st = guestRecords st' \<Longrightarrow> externalRecords st = externalRecords st' \<Longrightarrow>
   totals st = totals st' \<Longrightarrow>
   guestRecords (foldl (processRecord truthy rnd numStr) st rs)
     = guestRecords (foldl (processRecord truthy rnd numStr) st' (filter (hasOpenBalance truthy rnd numStr) rs))
   \<and> externalRecords (foldl (processRecord truthy rnd numStr) st rs)
     = externalRecords (foldl (processRecord truthy rnd numStr) st' (filter (hasOpenBalance truthy rnd numStr) rs))
   \<and> totals (foldl (processRecord truthy rnd numStr) st rs)
     = totals (foldl (processRecord truthy rnd numStr) st' (filter (hasOpenBalance truthy rnd numStr) rs))"
proof (induction rs arbitrary: st st')
  case Nil
  then show ?case by simp
next
  case (Cons r rs)
  show ?case
  proof (cases "hasOpenBalance truthy rnd numStr r")
    case True
    from processRecord_core[OF Cons.prems, of truthy rnd numStr r]
    have "guestRecords (processRecord truthy rnd numStr st r) = guestRecords (processRecord truthy rnd numStr st' r)"
      "externalRecords (processRecord truthy rnd numStr st r) = externalRecords (processRecord truthy rnd numStr st' r)"
      "totals (processRecord truthy rnd numStr st r) = totals (processRecord truthy rnd numStr st' r)"
      by simp_all
    from Cons.IH[OF this] True show ?thesis by simp
  next
    case False
    from processRecord_closed[OF False, of st] Cons.prems
    have "guestRecords (processRecord truthy rnd numStr st r) = guestRecords st'"
      "externalRecords (processRecord truthy rnd numStr st r) = externalRecords st'"
      "totals (processRecord truthy rnd numStr st r) = totals st'"
      by simp_all
    from Cons.IH[OF this] False show ?thesis by simp
  qed
qed

lemma aggregate_records:
  "guestRecords (aggregate truthy rnd numStr rs) =
     map (storedRecord truthy rnd numStr) (filter (\<lambda>r. hasOpenBalance truthy rnd numStr r \<and> row_type r = ''Guest'') rs)"
  "externalRecords (aggregate truthy rnd numStr rs) =
     map (storedRecord truthy rnd numStr) (filter (\<lambda>r. hasOpenBalance truthy rnd numStr r \<and> row_type r \<noteq> ''Guest'') rs)"
  by (simp_all add: aggregate_def aggregateFold_guest aggregateFold_external initialState_def)

lemma aggregate_records_set:
  "set (guestRecords (aggregate truthy rnd numStr rs) @ externalRecords (aggregate truthy rnd numStr rs)) =
     storedRecord truthy rnd numStr ` {r \<in> set rs. hasOpenBalance truthy rnd numStr r}"
  by (auto simp: aggregate_records)

lemma aggregate_kept:
  "guestRecords (aggregate truthy rnd numStr rs) =
     filter (\<lambda>r. row_type r = ''Guest'') (keptRecords truthy rnd numStr rs)"
  "externalRecords (aggregate truthy rnd numStr rs) =
     filter (\<lambda>r. row_type r \<noteq> ''Guest'') (keptRecords truthy rnd numStr rs)"
  by (simp_all add: aggregate_records keptRecords_def filter_map comp_def storedRecord_fields
      conj_commute)

lemma aggregate_total_receivables:
  "total_receivables (totals (aggregate truthy rnd numStr rs)) =
     foldl (\<lambda>sum r. sum + receivables r) 0 (keptRecords truthy rnd numStr rs)"
  by (simp add: aggregate_def aggregateFold_receivables initialState_def keptRecords_def
      foldl_map storedRecord_fields)

lemma stored_number:
  assumes "freshRecord r"
  shows "numberAt (liabilities (storedRecord truthy rnd numStr r)) k =
           (if k \<in> fst ` set (liabilityInfo truthy numStr r)
            then rnd (numberAt (liabilityInfo truthy numStr r) k) else 0)"
proof (cases "k \<in> fst ` set (liabilityInfo truthy numStr r)")
  case True
  then show ?thesis by (simp add: numberAt_def storedRecord_liabilities)
next
  case False
  then have "k \<noteq> ''total''" using total_in_liabilityInfo[of truthy numStr r] by auto
  with False assms show ?thesis
    by (simp add: numberAt_def storedRecord_liabilities freshRecord_def)
qed

lemma stored_keys:
  assumes "freshRecord r"
  shows "fst ` set (liabilities (storedRecord truthy rnd numStr r)) =
           fst ` set (liabilityInfo truthy numStr r)"
  using assms total_in_liabilityInfo[of truthy numStr r]
  by (auto simp: storedRecord_eq setFold_keys freshRecord_def)

lemma aggregate_total_liabilities:
  assumes "\<forall>r \<in> set rs. freshRecord r"
  shows "numberAt (total_liabilities (totals (aggregate truthy rnd numStr rs))) k =
     foldl (\<lambda>sum r. orZero truthy sum + numberAt (liabilities r) k) 0
       (filter (\<lambda>r. k \<in> fst ` set (liabilities r)) (keptRecords truthy rnd numStr rs))"
proof -
  let ?S = "filter (hasOpenBalance truthy rnd numStr) rs"
  let ?L = "filter (\<lambda>r. k \<in> fst ` set (liabilityInfo truthy numStr r)) ?S"
  have fresh: "freshRecord r" if "r \<in> set ?S" for r using assms that by simp
  have f: "filter (\<lambda>r. k \<in> fst ` set (liabilities (storedRecord truthy rnd numStr r))) ?S = ?L"
    by (rule filter_cong[OF refl]) (simp add: stored_keys[OF fresh])
  have g: "foldl (\<lambda>sum r. orZero truthy sum
                    + numberAt (liabilities (storedRecord truthy rnd numStr r)) k) 0 ?L
         = foldl (\<lambda>sum r. orZero truthy sum + rnd (numberAt (liabilityInfo truthy numStr r) k)) 0 ?L"
  proof (rule foldl_cong[OF refl refl])
    fix a r assume "r \<in> set ?L"
    then have "r \<in> set ?S" and k: "k \<in> fst ` set (liabilityInfo truthy numStr r)" by simp_all
    from stored_number[OF fresh[OF this(1)], of truthy rnd numStr k] k
    show "orZero truthy a + numberAt (liabilities (storedRecord truthy rnd numStr r)) k
        = orZero truthy a + rnd (numberAt (liabilityInfo truthy numStr r) k)" by simp
  qed
  have l: "filter (\<lambda>r. hasOpenBalance truthy rnd numStr r
                     \<and> k \<in> fst ` set (liabilityInfo truthy numStr r)) rs = ?L"
    by (simp add: conj_commute)
  have "numberAt (total_liabilities (totals (aggregate truthy rnd numStr rs))) k =
      foldl (\<lambda>sum r. orZero truthy sum + rnd (numberAt (liabilityInfo truthy numStr r) k)) 0 ?L"
    unfolding aggregate_def aggregateFold_liabilities l
    by (simp add: initialState_def numberAt_initial)
  also have "\<dots> = foldl (\<lambda>sum r. orZero truthy sum
                    + numberAt (liabilities (storedRecord truthy rnd numStr r)) k) 0 ?L"
    by (rule g[symmetric])
  also have "\<dots> = foldl (\<lambda>sum r. orZero truthy sum + numberAt (liabilities r) k) 0
       (filter (\<lambda>r. k \<in> fst ` set (liabilities r)) (keptRecords truthy rnd numStr rs))"
    unfolding keptRecords_def filter_map foldl_map comp_def f ..
  finally show ?thesis .
qed

lemma aggregate_used_keys:
  assumes "\<forall>r \<in> set rs. freshRecord r"
  shows "set (usedVatTypes (aggregate truthy rnd numStr rs)) =
     insert ''total'' (\<Union>r \<in> set (guestRecords (aggregate truthy rnd numStr rs)
                                    @ externalRecords (aggregate truthy rnd numStr rs)).
                          fst ` set (liabilities r))"
proof -
  have "(\<Union>r \<in> set (guestRecords (aggregate truthy rnd numStr rs) @ externalRecords (aggregate truthy rnd numStr rs)).
            fst ` set (liabilities r))
        = (\<Union>r \<in> {r \<in> set rs. hasOpenBalance truthy rnd numStr r}. fst ` set (liabilityInfo truthy numStr r))"
    unfolding aggregate_records_set using assms by (auto simp: stored_keys)
  then show ?thesis
    by (simp add: usedVatTypes_def aggregate_def aggregateFold_liability_keys initialState_def)
qed

subsection \<open>The columns\<close>

lemma grouped_fresh:
  assumes "generateORLReport truthy rnd numStr data property startDate endDate = Inr rep"
    and "r \<in> set (rep_groupedRecords rep)"
  shows "freshRecord r \<and> (row_type r = ''Guest'' \<or> row_type r = ''External'')
       \<and> (row_type r \<noteq> ''Guest'' \<longrightarrow>
             row_arrival r = None \<and> row_departure r = None \<and> row_status r = None)"
proof -
  from report_fields[OF assms(1)] obtain g where
    g: "groupTransactions [] (rep_transactions rep) = Inr g"
    and gr: "rep_groupedRecords rep = objectValues g" by auto
  from assms(2) gr have "r \<in> set (objectValues g)" by simp
  from grouped_records(3)[OF g this] obtain t ts r0 where
    cr: "createRecordForTransaction t = Inr r0" and req: "r = r0\<lparr>transactions := t # ts\<rparr>" by auto
  from createRecord_transactions[OF cr] createRecord_type[OF cr] created_fields[OF cr]
  show ?thesis unfolding req freshRecord_def by auto
qed

lemma vat_key_vatInfoFor: "vat_key (vatInfoFor k tx) = k"
  by (simp add: vatInfoFor_def split: option.splits)

lemma registry_vat_key: "registryOk numStr T vti \<Longrightarrow> p \<in> set vti \<Longrightarrow> vat_key (snd p) = fst p"
  unfolding registryOk_def using vat_key_vatInfoFor by metis

lemma aggregate_registry:
  "registryOk numStr (\<Union>r \<in> set rs. set (liabilityTransactions r))
     (vatTypesInfo (aggregate truthy rnd numStr rs))"
  unfolding aggregate_def
  by (rule aggregateFold_registry) (auto simp: registryOk_def initialState_def)

lemma aggregate_registry_keys:
  "fst ` set (vatTypesInfo (aggregate truthy rnd numStr rs)) =
     (\<Union>r \<in> set rs. vatKeyOf numStr ` set (liabilityTransactions r))"
  by (simp add: aggregate_def aggregateFold_registry_keys initialState_def)

lemma distinct_map_sort_key: "distinct (map f (sort_key g xs)) = distinct (map f xs)"
  by (simp add: distinct_map)

lemma column_keys:
  "map col_key (liabilitiesColumns numStr st) =
     map vat_key (sort_key sortWeight
       (filter (\<lambda>ty. vat_key ty \<in> set (usedVatTypes st)) (map snd (vatTypesInfo st))))"
  by (simp add: liabilitiesColumns_def columnFor_def comp_def)

lemma registry_vat_keys:
  assumes "registryOk numStr T vti"
  shows "map vat_key (map snd vti) = map fst vti"
proof -
  have "map (\<lambda>p. vat_key (snd p)) vti = map fst vti"
    by (rule map_cong[OF refl]) (rule registry_vat_key[OF assms])
  then show ?thesis by (simp add: comp_def)
qed

lemma column_keys_distinct:
  assumes "registryOk numStr T (vatTypesInfo st)"
  shows "distinct (map col_key (liabilitiesColumns numStr st))"
proof -
  have "distinct (map fst (vatTypesInfo st))" using assms by (simp add: registryOk_def)
  then have "distinct (map vat_key (map snd (vatTypesInfo st)))"
    by (simp only: registry_vat_keys[OF assms])
  then show ?thesis
    unfolding column_keys distinct_map_sort_key by (rule distinct_map_filter)
qed

lemma column_keys_set:
  assumes "registryOk numStr T (vatTypesInfo st)"
  shows "col_key ` set (liabilitiesColumns numStr st) =
           fst ` set (vatTypesInfo st) \<inter> set (usedVatTypes st)"
proof (rule set_eqI, rule iffI)
  fix k assume "k \<in> col_key ` set (liabilitiesColumns numStr st)"
  then have "k \<in> set (map col_key (liabilitiesColumns numStr st))" by simp
  then obtain p where p: "p \<in> set (vatTypesInfo st)" "vat_key (snd p) \<in> set (usedVatTypes st)"
    "k = vat_key (snd p)" unfolding column_keys by auto
  from registry_vat_key[OF assms p(1)] p
  show "k \<in> fst ` set (vatTypesInfo st) \<inter> set (usedVatTypes st)" by simp
next
  fix k assume "k \<in> fst ` set (vatTypesInfo st) \<inter> set (usedVatTypes st)"
  then obtain p where p: "p \<in> set (vatTypesInfo st)" "k = fst p" "k \<in> set (usedVatTypes st)" by auto
  from registry_vat_key[OF assms p(1)] p have "vat_key (snd p) = k" by simp
  with p have "k \<in> vat_key ` set (filter (\<lambda>ty. vat_key ty \<in> set (usedVatTypes st))
                                    (map snd (vatTypesInfo st)))"
    by (intro image_eqI[of _ _ "snd p"]) auto
  then have "k \<in> set (map col_key (liabilitiesColumns numStr st))" unfolding column_keys by simp
  then show "k \<in> col_key ` set (liabilitiesColumns numStr st)" by simp
qed

lemma column_keys_used:
  "c \<in> set (liabilitiesColumns numStr st) \<Longrightarrow> col_key c \<in> fst ` set (total_liabilities (totals st))"
proof -
  assume "c \<in> set (liabilitiesColumns numStr st)"
  then have "col_key c \<in> set (map col_key (liabilitiesColumns numStr st))" by simp
  then have "col_key c \<in> set (usedVatTypes st)" unfolding column_keys by auto
  then show ?thesis by (simp add: usedVatTypes_def)
qed

lemma vatKeyOf_not_total: "vatKeyOf numStr t \<noteq> ''total''"
  by (simp add: vatKeyOf_def vat_key_not_total)

lemma stored_keys_set:
  assumes "\<forall>r \<in> set rs. freshRecord r"
    and "r' \<in> set (guestRecords (aggregate truthy rnd numStr rs) @ externalRecords (aggregate truthy rnd numStr rs))"
  shows "\<exists>r \<in> set rs. hasOpenBalance truthy rnd numStr r \<and> r' = storedRecord truthy rnd numStr r
           \<and> liabilityTransactions r' = liabilityTransactions r
           \<and> receivableTransactions r' = receivableTransactions r
           \<and> fst ` set (liabilities r') = insert ''total'' (vatKeyOf numStr ` set (liabilityTransactions r))"
proof -
  from assms(2) obtain r where r: "r \<in> set rs" "hasOpenBalance truthy rnd numStr r" "r' = storedRecord truthy rnd numStr r"
    unfolding aggregate_records_set by auto
  have "fst ` set (liabilities r') = insert ''total'' (vatKeyOf numStr ` set (liabilityTransactions r))"
    using stored_keys[of r truthy rnd numStr] assms(1) r by (simp add: liabilityInfo_keys)
  moreover have "liabilityTransactions r' = liabilityTransactions r"
    "receivableTransactions r' = receivableTransactions r"
    using r(3) by (simp_all add: liabilityTransactions_def receivableTransactions_def storedRecord_fields)
  ultimately show ?thesis using r by blast
qed

lemma report_column_keys:
  assumes rep: "generateORLReport truthy rnd numStr data property startDate endDate = Inr rep"
  shows "col_key ` set (rep_columns rep) =
           (\<Union>r \<in> set (guestRecords (rep_state rep) @ externalRecords (rep_state rep)).
               vatKeyOf numStr ` set (liabilityTransactions r))"
proof -
  from report_fields[OF rep] have
    st: "rep_state rep = aggregate truthy rnd numStr (rep_groupedRecords rep)"
    and cols: "rep_columns rep = liabilitiesColumns numStr (rep_state rep)" by auto
  let ?rs = "rep_groupedRecords rep"
  let ?st = "aggregate truthy rnd numStr ?rs"
  let ?recs = "guestRecords ?st @ externalRecords ?st"
  have fresh: "\<forall>r \<in> set ?rs. freshRecord r" using grouped_fresh[OF rep] by blast
  have a1: "col_key ` set (liabilitiesColumns numStr ?st)
           = fst ` set (vatTypesInfo ?st) \<inter> set (usedVatTypes ?st)"
    by (rule column_keys_set[OF aggregate_registry[of numStr ?rs truthy rnd]])
  have a2: "fst ` set (vatTypesInfo ?st) = (\<Union>r \<in> set ?rs. vatKeyOf numStr ` set (liabilityTransactions r))"
    by (rule aggregate_registry_keys)
  have a3: "set (usedVatTypes ?st) = insert ''total'' (\<Union>r \<in> set ?recs. fst ` set (liabilities r))"
    by (rule aggregate_used_keys[OF fresh])
  have a: "col_key ` set (liabilitiesColumns numStr ?st)
           = (\<Union>r \<in> set ?rs. vatKeyOf numStr ` set (liabilityTransactions r))
             \<inter> insert ''total'' (\<Union>r \<in> set ?recs. fst ` set (liabilities r))"
    unfolding a1 a2 a3 ..
  have kr: "fst ` set (liabilities r') = insert ''total'' (vatKeyOf numStr ` set (liabilityTransactions r'))"
    and ex: "\<exists>r \<in> set ?rs. liabilityTransactions r' = liabilityTransactions r"
    if "r' \<in> set ?recs" for r'
  proof -
    from stored_keys_set[OF fresh that] obtain r where r: "r \<in> set ?rs"
      "liabilityTransactions r' = liabilityTransactions r"
      "fst ` set (liabilities r') = insert ''total'' (vatKeyOf numStr ` set (liabilityTransactions r))"
      by blast
    show "fst ` set (liabilities r') = insert ''total'' (vatKeyOf numStr ` set (liabilityTransactions r'))"
      unfolding r(2) by (rule r(3))
    show "\<exists>r \<in> set ?rs. liabilityTransactions r' = liabilityTransactions r"
      using r(1,2) by blast
  qed
  have "col_key ` set (liabilitiesColumns numStr ?st)
           = (\<Union>r \<in> set ?recs. vatKeyOf numStr ` set (liabilityTransactions r))"
  proof (rule set_eqI, rule iffI)
    fix k assume "k \<in> col_key ` set (liabilitiesColumns numStr ?st)"
    then have k1: "k \<in> (\<Union>r \<in> set ?rs. vatKeyOf numStr ` set (liabilityTransactions r))"
      and k2: "k \<in> insert ''total'' (\<Union>r \<in> set ?recs. fst ` set (liabilities r))"
      unfolding a by blast+
    from k1 obtain r0 t where "r0 \<in> set ?rs" "t \<in> set (liabilityTransactions r0)"
      "k = vatKeyOf numStr t" by blast
    then have nt: "k \<noteq> ''total''" by (simp add: vatKeyOf_not_total)
    with k2 obtain r' where r': "r' \<in> set ?recs" "k \<in> fst ` set (liabilities r')" by blast
    from r'(2) have "k \<in> insert ''total'' (vatKeyOf numStr ` set (liabilityTransactions r'))"
      unfolding kr[OF r'(1)] .
    with nt have "k \<in> vatKeyOf numStr ` set (liabilityTransactions r')" by blast
    with r'(1) show "k \<in> (\<Union>r \<in> set ?recs. vatKeyOf numStr ` set (liabilityTransactions r))" by blast
  next
    fix k assume "k \<in> (\<Union>r \<in> set ?recs. vatKeyOf numStr ` set (liabilityTransactions r))"
    then obtain r' where r': "r' \<in> set ?recs" "k \<in> vatKeyOf numStr ` set (liabilityTransactions r')" by blast
    from ex[OF r'(1)] obtain r where r: "r \<in> set ?rs" "liabilityTransactions r' = liabilityTransactions r"
      by blast
    from r'(2) have "k \<in> vatKeyOf numStr ` set (liabilityTransactions r)" unfolding r(2) .
    with r(1) have k1: "k \<in> (\<Union>r \<in> set ?rs. vatKeyOf numStr ` set (liabilityTransactions r))" by blast
    from r'(2) have "k \<in> fst ` set (liabilities r')" unfolding kr[OF r'(1)] by blast
    with r'(1) have k2: "k \<in> insert ''total'' (\<Union>r \<in> set ?recs. fst ` set (liabilities r))" by blast
    from k1 k2 show "k \<in> col_key ` set (liabilitiesColumns numStr ?st)" unfolding a by blast
  qed
  then show ?thesis unfolding cols st .
qed

subsection \<open>The records of the report\<close>

lemma report_state:
  assumes "generateORLReport truthy rnd numStr data property startDate endDate = Inr rep"
  shows "rep_state rep = aggregate truthy rnd numStr (rep_groupedRecords rep)"
    and "rep_columns rep = liabilitiesColumns numStr (rep_state rep)"
    and "rep_rows rep = map (rowFor truthy property (rep_columns rep)) (reportRecords rep)"
    and "rep_totalRow rep = totalRowFor rnd (rep_columns rep) (totals (rep_state rep))"
    and "\<forall>r \<in> set (rep_groupedRecords rep). freshRecord r"
    and "distinct (map row_id (rep_groupedRecords rep))"
proof -
  from report_fields[OF assms] obtain g where
    g: "groupTransactions [] (rep_transactions rep) = Inr g"
    and gr: "rep_groupedRecords rep = objectValues g"
    and "rep_state rep = aggregate truthy rnd numStr (rep_groupedRecords rep)"
    and "rep_columns rep = liabilitiesColumns numStr (rep_state rep)"
    and "rep_rows rep = map (rowFor truthy property (rep_columns rep))
                 (guestRecords (rep_state rep) @ externalRecords (rep_state rep))"
    and "rep_totalRow rep = totalRowFor rnd (rep_columns rep) (totals (rep_state rep))"
    by auto
  then show "rep_state rep = aggregate truthy rnd numStr (rep_groupedRecords rep)"
    and "rep_columns rep = liabilitiesColumns numStr (rep_state rep)"
    and "rep_rows rep = map (rowFor truthy property (rep_columns rep)) (reportRecords rep)"
    and "rep_totalRow rep = totalRowFor rnd (rep_columns rep) (totals (rep_state rep))"
    by (simp_all add: reportRecords_def)
  show "\<forall>r \<in> set (rep_groupedRecords rep). freshRecord r"
  proof
    fix r assume "r \<in> set (rep_groupedRecords rep)"
    from grouped_fresh[OF assms this] show "freshRecord r" by (rule conjunct1)
  qed
  show "distinct (map row_id (rep_groupedRecords rep))" using grouped_records(1)[OF g] gr by simp
qed

lemma report_record:
  assumes rep: "generateORLReport truthy rnd numStr data property startDate endDate = Inr rep"
    and r': "r' \<in> set (reportRecords rep)"
  shows "\<exists>r \<in> set (rep_groupedRecords rep). hasOpenBalance truthy rnd numStr r \<and> freshRecord r
           \<and> r' = storedRecord truthy rnd numStr r
           \<and> liabilityTransactions r' = liabilityTransactions r
           \<and> receivableTransactions r' = receivableTransactions r"
proof -
  note st = report_state[OF rep]
  from r' have "r' \<in> storedRecord truthy rnd numStr `
                   {r \<in> set (rep_groupedRecords rep). hasOpenBalance truthy rnd numStr r}"
    unfolding reportRecords_def st(1) aggregate_records_set .
  then obtain r where r: "r \<in> set (rep_groupedRecords rep)" "hasOpenBalance truthy rnd numStr r"
    "r' = storedRecord truthy rnd numStr r" by (elim imageE CollectE conjE)
  have f: "freshRecord r" using st(5) r(1) by (rule bspec)
  have l: "liabilityTransactions r' = liabilityTransactions r"
    unfolding r(3) by (simp add: liabilityTransactions_def storedRecord_fields)
  have v: "receivableTransactions r' = receivableTransactions r"
    unfolding r(3) by (simp add: receivableTransactions_def storedRecord_fields)
  show ?thesis by (intro bexI[of _ r] conjI) (rule r(2), rule f, rule r(3), rule l, rule v, rule r(1))
qed

lemma report_record_keys:
  assumes rep: "generateORLReport truthy rnd numStr data property startDate endDate = Inr rep"
    and r': "r' \<in> set (reportRecords rep)"
  shows "fst ` set (liabilities r') = insert ''total'' (vatKeyOf numStr ` set (liabilityTransactions r'))"
proof -
  from report_record[OF rep r'] obtain r where r: "freshRecord r" "r' = storedRecord truthy rnd numStr r"
    "liabilityTransactions r' = liabilityTransactions r" by (elim bexE conjE)
  show ?thesis unfolding r(3) unfolding r(2) using stored_keys[OF r(1)] by (simp add: liabilityInfo_keys)
qed

text \<open>
  What is stored on a record of the rows: the rounding of the sums of the reduce over the
  record's transactions, added from the left in the order of the record.
\<close>

lemma report_record_amounts:
  assumes rep: "generateORLReport truthy rnd numStr data property startDate endDate = Inr rep"
    and r': "r' \<in> set (reportRecords rep)"
  shows "receivables r' =
           rnd (foldl (\<lambda>sum t. sum + grossAmount t) 0 (receivableTransactions r'))"
    and "map_of (liabilities r') ''total'' =
           Some (rnd (foldl (\<lambda>sum t. sum + grossAmount t) 0 (liabilityTransactions r')))"
    and "k \<noteq> ''total'' \<Longrightarrow> map_of (liabilities r') k =
           (if k \<in> vatKeyOf numStr ` set (liabilityTransactions r')
            then Some (rnd (foldl (\<lambda>sum t. orZero truthy sum + grossAmount t) 0
                   (filter (\<lambda>t. vatKeyOf numStr t = k) (liabilityTransactions r'))))
            else None)"
proof -
  from report_record[OF rep r'] obtain r where r: "freshRecord r" "r' = storedRecord truthy rnd numStr r"
    "liabilityTransactions r' = liabilityTransactions r"
    "receivableTransactions r' = receivableTransactions r" by (elim bexE conjE)
  show "receivables r' = rnd (foldl (\<lambda>sum t. sum + grossAmount t) 0 (receivableTransactions r'))"
    unfolding r(4) unfolding r(2) by (simp add: storedRecord_fields recordReceivables_def)
  show "map_of (liabilities r') ''total'' =
           Some (rnd (foldl (\<lambda>sum t. sum + grossAmount t) 0 (liabilityTransactions r')))"
    unfolding r(3) unfolding r(2)
    by (simp add: storedRecord_liabilities total_in_liabilityInfo liabilityInfo_total)
  assume k: "k \<noteq> ''total''"
  have "map_of (liabilities r) k = None" using r(1) k by (simp add: freshRecord_def)
  with k show "map_of (liabilities r') k =
           (if k \<in> vatKeyOf numStr ` set (liabilityTransactions r')
            then Some (rnd (foldl (\<lambda>sum t. orZero truthy sum + grossAmount t) 0
                   (filter (\<lambda>t. vatKeyOf numStr t = k) (liabilityTransactions r'))))
            else None)"
    unfolding r(3) unfolding r(2)
    by (simp add: storedRecord_liabilities liabilityInfo_keys liabilityInfo_key)
qed

subsection \<open>The claims about the aggregation\<close>

text \<open>
  \<^bold>\<open>C1\<close> (amended). Whenever the report is produced, the visible liability columns have
  distinct keys, and a VAT key is the key of a column if and only if at least one record
  of the rows has an amount stored under it, zero or not, that is, if and only if at
  least one liability transaction of such a record has this key. So every key with a
  non-zero stored amount is a column.
\<close>

theorem vat_columns_of_stored_keys:
  assumes rep: "generateORLReport truthy rnd numStr data property startDate endDate = Inr rep"
  shows "distinct (map col_key (rep_columns rep))
       \<and> (\<forall>k. k \<in> col_key ` set (rep_columns rep) \<longleftrightarrow>
              k \<noteq> ''total'' \<and> (\<exists>r \<in> set (reportRecords rep). k \<in> fst ` set (liabilities r)))
       \<and> (\<forall>k. k \<in> col_key ` set (rep_columns rep) \<longleftrightarrow>
              (\<exists>r \<in> set (reportRecords rep). \<exists>t \<in> set (liabilityTransactions r). vatKeyOf numStr t = k))
       \<and> (\<forall>r \<in> set (reportRecords rep). \<forall>k.
              k \<noteq> ''total'' \<and> numberAt (liabilities r) k \<noteq> 0 \<longrightarrow> k \<in> col_key ` set (rep_columns rep))"
proof -
  note st = report_state[OF rep]
  note ck = report_column_keys[OF rep, folded reportRecords_def]
  have d: "distinct (map col_key (rep_columns rep))"
    unfolding st(2) st(1) by (rule column_keys_distinct[OF aggregate_registry])
  have c3: "\<forall>k. k \<in> col_key ` set (rep_columns rep) \<longleftrightarrow>
              (\<exists>r \<in> set (reportRecords rep). \<exists>t \<in> set (liabilityTransactions r). vatKeyOf numStr t = k)"
    unfolding ck by blast
  have c2: "\<forall>k. k \<in> col_key ` set (rep_columns rep) \<longleftrightarrow>
              k \<noteq> ''total'' \<and> (\<exists>r \<in> set (reportRecords rep). k \<in> fst ` set (liabilities r))"
  proof (intro allI iffI)
    fix k assume "k \<in> col_key ` set (rep_columns rep)"
    then obtain r t where r: "r \<in> set (reportRecords rep)" "t \<in> set (liabilityTransactions r)"
      "vatKeyOf numStr t = k" using c3 by blast
    have nt: "k \<noteq> ''total''" unfolding r(3)[symmetric] by (rule vatKeyOf_not_total)
    have "k \<in> vatKeyOf numStr ` set (liabilityTransactions r)"
      unfolding r(3)[symmetric] using r(2) by (rule imageI)
    then have "k \<in> fst ` set (liabilities r)"
      unfolding report_record_keys[OF rep r(1)] by (rule insertI2)
    with r(1) have "\<exists>r \<in> set (reportRecords rep). k \<in> fst ` set (liabilities r)" by (rule bexI[rotated])
    with nt show "k \<noteq> ''total'' \<and> (\<exists>r \<in> set (reportRecords rep). k \<in> fst ` set (liabilities r))" ..
  next
    fix k assume a: "k \<noteq> ''total'' \<and> (\<exists>r \<in> set (reportRecords rep). k \<in> fst ` set (liabilities r))"
    then obtain r where r: "r \<in> set (reportRecords rep)" "k \<in> fst ` set (liabilities r)"
      by (elim conjE bexE)
    from a have nt: "k \<noteq> ''total''" ..
    from r(2) have "k \<in> insert ''total'' (vatKeyOf numStr ` set (liabilityTransactions r))"
      unfolding report_record_keys[OF rep r(1)] .
    with nt have "k \<in> vatKeyOf numStr ` set (liabilityTransactions r)" by simp
    then obtain t where "t \<in> set (liabilityTransactions r)" "vatKeyOf numStr t = k" by (elim imageE) simp
    with r(1) show "k \<in> col_key ` set (rep_columns rep)" using c3 by blast
  qed
  have c4: "\<forall>r \<in> set (reportRecords rep). \<forall>k.
              k \<noteq> ''total'' \<and> numberAt (liabilities r) k \<noteq> 0 \<longrightarrow> k \<in> col_key ` set (rep_columns rep)"
  proof (intro ballI allI impI)
    fix r k assume r: "r \<in> set (reportRecords rep)"
      and a: "k \<noteq> ''total'' \<and> numberAt (liabilities r) k \<noteq> 0"
    from a have nt: "k \<noteq> ''total''" and nz: "numberAt (liabilities r) k \<noteq> 0" by (rule conjunct1, rule conjunct2)
    from nz have "k \<in> fst ` set (liabilities r)" using numberAt_absent[of k "liabilities r"] by (rule contrapos_np)
    with r have "\<exists>r \<in> set (reportRecords rep). k \<in> fst ` set (liabilities r)" by (rule bexI[rotated])
    with nt have "k \<noteq> ''total'' \<and> (\<exists>r \<in> set (reportRecords rep). k \<in> fst ` set (liabilities r))" ..
    then show "k \<in> col_key ` set (rep_columns rep)" using c2[rule_format, of k] by (rule iffD2[rotated])
  qed
  show ?thesis by (intro conjI) (rule d, rule c2, rule c3, rule c4)
qed

text \<open>
  A key whose stored amounts are all zero is a column all the same: the reservation keeps
  its row for its receivables, and its payment and refund under \<^verbatim>\<open>A-10\<close> store 0.
\<close>

theorem zero_column_counterexample:
  "map_sum id
     (\<lambda>rep. (map col_key (rep_columns rep),
             map (\<lambda>r. (row_id r, map (\<lambda>c. numberAt (liabilities r) (col_key c)) (rep_columns rep)))
               (reportRecords rep)))
     (generateORLReport nonZero round2 percentString refundData ''BER'' ''2020-01-01'' ''2020-01-31'')
   = Inr ([''A-10''], [(''R1'', [0])])"
  by code_simp

theorem vat_columns_of_stored_keys_witness:
  "\<exists>rep. generateORLReport nonZero round2 percentString refundData ''BER'' ''2020-01-01'' ''2020-01-31'' = Inr rep
         \<and> map col_key (rep_columns rep) = [''A-10'']
         \<and> distinct (map col_key (rep_columns rep))
         \<and> (''A-10'' \<in> col_key ` set (rep_columns rep) \<longleftrightarrow>
              ''A-10'' \<noteq> ''total''
              \<and> (\<exists>r \<in> set (reportRecords rep). ''A-10'' \<in> fst ` set (liabilities r)))"
proof -
  have v: "map_sum id (\<lambda>rep. map col_key (rep_columns rep))
             (generateORLReport nonZero round2 percentString refundData ''BER'' ''2020-01-01'' ''2020-01-31'')
           = Inr [''A-10'']"
    by code_simp
  then obtain rep where
    h: "generateORLReport nonZero round2 percentString refundData ''BER'' ''2020-01-01'' ''2020-01-31'' = Inr rep"
    by (cases "generateORLReport nonZero round2 percentString refundData ''BER'' ''2020-01-01'' ''2020-01-31''")
      auto
  from v h have c: "map col_key (rep_columns rep) = [''A-10'']" by simp
  note th = vat_columns_of_stored_keys[OF h]
  from th have d: "distinct (map col_key (rep_columns rep))" by (rule conjunct1)
  from th have "\<forall>k. k \<in> col_key ` set (rep_columns rep) \<longleftrightarrow>
              k \<noteq> ''total'' \<and> (\<exists>r \<in> set (reportRecords rep). k \<in> fst ` set (liabilities r))"
    by (elim conjE)
  then have e: "''A-10'' \<in> col_key ` set (rep_columns rep) \<longleftrightarrow>
              ''A-10'' \<noteq> ''total''
              \<and> (\<exists>r \<in> set (reportRecords rep). ''A-10'' \<in> fst ` set (liabilities r))"
    by (rule spec)
  show ?thesis by (intro exI[of _ rep] conjI) (rule h, rule c, rule d, rule e)
qed

text \<open>
  \<^bold>\<open>C2.\<close> Whenever the report is produced, a grouped record has a row if and only if
  its rounded receivables or its rounded liabilities total is not zero, that is, is a
  truthy number; each of the two is the rounding of the amounts of the record added from
  the left, starting from 0. The rows are those of the records kept. The records that
  fail the test contribute nothing: the guest records, the external records, the grand
  totals and the used VAT keys are the ones the main loop computes from the other records
  alone.
\<close>

theorem open_balance_retention:
  assumes rep: "generateORLReport truthy rnd numStr data property startDate endDate = Inr rep"
  shows "(\<forall>r \<in> set (rep_groupedRecords rep).
            row_id r \<in> row_id ` set (reportRecords rep) \<longleftrightarrow>
              truthy (rnd (foldl (\<lambda>sum t. sum + grossAmount t) 0 (receivableTransactions r)))
              \<or> truthy (rnd (foldl (\<lambda>sum t. sum + grossAmount t) 0 (liabilityTransactions r))))
       \<and> rep_rows rep = map (rowFor truthy property (rep_columns rep)) (reportRecords rep)
       \<and> guestRecords (rep_state rep) =
           guestRecords (aggregate truthy rnd numStr
             (filter (\<lambda>r. truthy (rnd (foldl (\<lambda>sum t. sum + grossAmount t) 0 (receivableTransactions r)))
                          \<or> truthy (rnd (foldl (\<lambda>sum t. sum + grossAmount t) 0 (liabilityTransactions r))))
                (rep_groupedRecords rep)))
       \<and> externalRecords (rep_state rep) =
           externalRecords (aggregate truthy rnd numStr
             (filter (\<lambda>r. truthy (rnd (foldl (\<lambda>sum t. sum + grossAmount t) 0 (receivableTransactions r)))
                          \<or> truthy (rnd (foldl (\<lambda>sum t. sum + grossAmount t) 0 (liabilityTransactions r))))
                (rep_groupedRecords rep)))
       \<and> totals (rep_state rep) =
           totals (aggregate truthy rnd numStr
             (filter (\<lambda>r. truthy (rnd (foldl (\<lambda>sum t. sum + grossAmount t) 0 (receivableTransactions r)))
                          \<or> truthy (rnd (foldl (\<lambda>sum t. sum + grossAmount t) 0 (liabilityTransactions r))))
                (rep_groupedRecords rep)))
       \<and> usedVatTypes (rep_state rep) =
           usedVatTypes (aggregate truthy rnd numStr
             (filter (\<lambda>r. truthy (rnd (foldl (\<lambda>sum t. sum + grossAmount t) 0 (receivableTransactions r)))
                          \<or> truthy (rnd (foldl (\<lambda>sum t. sum + grossAmount t) 0 (liabilityTransactions r))))
                (rep_groupedRecords rep)))"
proof -
  note st = report_state[OF rep]
  let ?rs = "rep_groupedRecords rep"
  let ?open = "\<lambda>r. truthy (rnd (foldl (\<lambda>sum t. sum + grossAmount t) 0 (receivableTransactions r)))
                          \<or> truthy (rnd (foldl (\<lambda>sum t. sum + grossAmount t) 0 (liabilityTransactions r)))"
  have op: "hasOpenBalance truthy rnd numStr = ?open" by (rule ext) (rule hasOpenBalance_iff)
  have recs: "set (reportRecords rep) = storedRecord truthy rnd numStr ` {r \<in> set ?rs. ?open r}"
    unfolding reportRecords_def st(1) aggregate_records_set op ..
  have inj: "inj_on row_id (set ?rs)" using st(6) by (simp add: distinct_map)
  have c1: "\<forall>r \<in> set ?rs. row_id r \<in> row_id ` set (reportRecords rep) \<longleftrightarrow> ?open r"
  proof (intro ballI iffI)
    fix r assume r: "r \<in> set ?rs" and "row_id r \<in> row_id ` set (reportRecords rep)"
    then obtain r2 where r2: "r2 \<in> set ?rs" "?open r2" "row_id r = row_id (storedRecord truthy rnd numStr r2)"
      unfolding recs by (elim imageE CollectE conjE) simp
    from r2(3) have "row_id r = row_id r2" by (simp add: storedRecord_fields)
    from inj_onD[OF inj this r r2(1)] have "r = r2" .
    with r2(2) show "?open r" by simp
  next
    fix r assume r: "r \<in> set ?rs" and o: "?open r"
    then have "storedRecord truthy rnd numStr r \<in> set (reportRecords rep)" unfolding recs by simp
    then have "row_id (storedRecord truthy rnd numStr r) \<in> row_id ` set (reportRecords rep)" by (rule imageI)
    then show "row_id r \<in> row_id ` set (reportRecords rep)" by (simp add: storedRecord_fields)
  qed
  from aggregateFold_core[of initialState initialState truthy rnd numStr ?rs]
  have core: "guestRecords (aggregate truthy rnd numStr ?rs) = guestRecords (aggregate truthy rnd numStr (filter ?open ?rs))"
    "externalRecords (aggregate truthy rnd numStr ?rs) = externalRecords (aggregate truthy rnd numStr (filter ?open ?rs))"
    "totals (aggregate truthy rnd numStr ?rs) = totals (aggregate truthy rnd numStr (filter ?open ?rs))"
    unfolding aggregate_def op by simp_all
  have used: "usedVatTypes (aggregate truthy rnd numStr ?rs) = usedVatTypes (aggregate truthy rnd numStr (filter ?open ?rs))"
    unfolding usedVatTypes_def core(3) ..
  show ?thesis
    unfolding st(1)
    by (intro conjI) (rule c1[unfolded st(1)], rule st(3)[unfolded st(1)], rule core(1), rule core(2),
        rule core(3), rule used)
qed

theorem open_balance_retention_witness:
  "\<exists>rep. generateORLReport nonZero round2 percentString closedData ''BER'' ''2020-01-01'' ''2020-01-31'' = Inr rep
         \<and> map row_id (rep_groupedRecords rep) = [''R1'', ''EXT1'', ''EXT2'']
         \<and> map row_id (reportRecords rep) = [''R1'', ''EXT1'']
         \<and> map col_key (rep_columns rep) = [''Without'', ''A-10'']
         \<and> rep_rows rep = map (rowFor nonZero ''BER'' (rep_columns rep)) (reportRecords rep)
         \<and> totals (rep_state rep) =
             totals (aggregate nonZero round2 percentString
               (filter (\<lambda>r. nonZero (round2 (foldl (\<lambda>sum t. sum + grossAmount t) 0 (receivableTransactions r)))
                          \<or> nonZero (round2 (foldl (\<lambda>sum t. sum + grossAmount t) 0 (liabilityTransactions r))))
                  (rep_groupedRecords rep)))"
proof -
  have v: "map_sum id (\<lambda>rep. (map row_id (rep_groupedRecords rep), map row_id (reportRecords rep),
                              map col_key (rep_columns rep)))
             (generateORLReport nonZero round2 percentString closedData ''BER'' ''2020-01-01'' ''2020-01-31'')
           = Inr ([''R1'', ''EXT1'', ''EXT2''], [''R1'', ''EXT1''], [''Without'', ''A-10''])"
    by code_simp
  then obtain rep where
    h: "generateORLReport nonZero round2 percentString closedData ''BER'' ''2020-01-01'' ''2020-01-31'' = Inr rep"
    by (cases "generateORLReport nonZero round2 percentString closedData ''BER'' ''2020-01-01'' ''2020-01-31''")
      auto
  from v h have c: "map row_id (rep_groupedRecords rep) = [''R1'', ''EXT1'', ''EXT2'']"
    "map row_id (reportRecords rep) = [''R1'', ''EXT1'']"
    "map col_key (rep_columns rep) = [''Without'', ''A-10'']" by simp_all
  note th = open_balance_retention[OF h]
  from th have r: "rep_rows rep = map (rowFor nonZero ''BER'' (rep_columns rep)) (reportRecords rep)"
    by (elim conjE)
  from th have t: "totals (rep_state rep) =
             totals (aggregate nonZero round2 percentString
               (filter (\<lambda>r. nonZero (round2 (foldl (\<lambda>sum t. sum + grossAmount t) 0 (receivableTransactions r)))
                          \<or> nonZero (round2 (foldl (\<lambda>sum t. sum + grossAmount t) 0 (liabilityTransactions r))))
                  (rep_groupedRecords rep)))"
    by (elim conjE)
  show ?thesis by (intro exI[of _ rep] conjI) (rule h, rule c(1), rule c(2), rule c(3), rule r, rule t)
qed

subsection \<open>The order of the loop\<close>

lemma filter_key_distinct:
  "distinct (map f xs) \<Longrightarrow> x \<in> set xs \<Longrightarrow> filter (\<lambda>y. f y = f x) xs = [x]"
proof (induction xs)
  case Nil
  then show ?case by simp
next
  case (Cons a xs)
  show ?case
  proof (cases "x = a")
    case True
    have "filter (\<lambda>y. f y = f a) xs = []" using Cons.prems(1) by (auto simp: filter_empty_conv image_iff)
    with True show ?thesis by simp
  next
    case False
    then have x: "x \<in> set xs" using Cons.prems(2) by simp
    then have "f a \<noteq> f x" using Cons.prems(1) by auto
    with Cons.IH[OF _ x] Cons.prems(1) show ?thesis by simp
  qed
qed

lemma filter_partition_short:
  assumes "length (filter P xs) \<le> 1"
  shows "filter P (filter Q xs @ filter (\<lambda>x. \<not> Q x) xs) = filter P xs"
proof -
  have c: "filter P (filter Q xs) = filter Q (filter P xs)"
    "filter P (filter (\<lambda>x. \<not> Q x) xs) = filter (\<lambda>x. \<not> Q x) (filter P xs)"
    by (simp_all add: conj_commute)
  show ?thesis
  proof (cases "filter P xs")
    case Nil
    then show ?thesis by (simp add: c del: filter_filter)
  next
    case (Cons y ys)
    with assms have "filter P xs = [y]" by simp
    then show ?thesis by (simp add: c del: filter_filter)
  qed
qed

lemma concat_map_if:
  "concat (map (\<lambda>x. if P x then [f x] else []) xs) = map f (filter P xs)"
  by (induction xs) simp_all

lemma report_loop_records:
  assumes rep: "generateORLReport truthy rnd numStr data property startDate endDate = Inr rep"
  shows "recordsInLoopOrder rep = keptRecords truthy rnd numStr (rep_groupedRecords rep)"
    and "reportRecords rep =
           filter (\<lambda>r. row_type r = ''Guest'') (recordsInLoopOrder rep)
           @ filter (\<lambda>r. row_type r \<noteq> ''Guest'') (recordsInLoopOrder rep)"
proof -
  note st = report_state[OF rep]
  let ?gs = "rep_groupedRecords rep"
  let ?K = "keptRecords truthy rnd numStr ?gs"
  have rr: "reportRecords rep =
      filter (\<lambda>r. row_type r = ''Guest'') ?K @ filter (\<lambda>r. row_type r \<noteq> ''Guest'') ?K"
    unfolding reportRecords_def st(1) aggregate_kept ..
  have one: "filter (\<lambda>r. row_id r = row_id g) ?K =
               (if hasOpenBalance truthy rnd numStr g then [storedRecord truthy rnd numStr g] else [])"
    if g: "g \<in> set ?gs" for g
  proof -
    have "filter (\<lambda>r. row_id r = row_id g) ?K =
        map (storedRecord truthy rnd numStr)
          (filter (hasOpenBalance truthy rnd numStr) (filter (\<lambda>r. row_id r = row_id g) ?gs))"
      by (simp add: keptRecords_def filter_map comp_def storedRecord_fields conj_commute)
    also have "filter (\<lambda>r. row_id r = row_id g) ?gs = [g]"
      by (rule filter_key_distinct[OF st(6) g])
    finally show ?thesis by simp
  qed
  have each: "filter (\<lambda>r. row_id r = row_id g) (reportRecords rep) =
               (if hasOpenBalance truthy rnd numStr g then [storedRecord truthy rnd numStr g] else [])"
    if g: "g \<in> set ?gs" for g
  proof -
    have "length (filter (\<lambda>r. row_id r = row_id g) ?K) \<le> 1" unfolding one[OF g] by simp
    from filter_partition_short[OF this, of "\<lambda>r. row_type r = ''Guest''"]
    show ?thesis unfolding rr one[OF g] .
  qed
  have "recordsInLoopOrder rep =
      concat (map (\<lambda>g. if hasOpenBalance truthy rnd numStr g
                        then [storedRecord truthy rnd numStr g] else []) ?gs)"
    unfolding recordsInLoopOrder_def
    by (rule arg_cong[where f = concat], rule map_cong[OF refl]) (rule each)
  then show k: "recordsInLoopOrder rep = ?K"
    unfolding concat_map_if keptRecords_def .
  show "reportRecords rep =
           filter (\<lambda>r. row_type r = ''Guest'') (recordsInLoopOrder rep)
           @ filter (\<lambda>r. row_type r \<noteq> ''Guest'') (recordsInLoopOrder rep)"
    unfolding k by (rule rr)
qed

lemma kept_total_key:
  assumes "\<forall>r \<in> set rs. freshRecord r"
  shows "filter (\<lambda>r. ''total'' \<in> fst ` set (liabilities r)) (keptRecords truthy rnd numStr rs)
         = keptRecords truthy rnd numStr rs"
proof -
  have "''total'' \<in> fst ` set (liabilities (storedRecord truthy rnd numStr r))"
    if "r \<in> set rs" for r
    using assms that by (simp add: stored_keys total_in_liabilityInfo)
  then show ?thesis by (auto simp: keptRecords_def filter_id_conv)
qed

lemma totalRowFor_cells:
  "totalRowFor rnd columns tot ! 4 = Num (rnd (total_receivables tot))"
  "totalRowFor rnd columns tot ! 5 = Num (rnd (numberAt (total_liabilities tot) ''total''))"
  "i < length columns \<Longrightarrow>
     totalRowFor rnd columns tot ! (6 + i) = Num (rnd (numberAt (total_liabilities tot) (col_key (columns ! i))))"
  "length (totalRowFor rnd columns tot) = 6 + length columns"
  by (simp_all add: totalRowFor_def nth_append)

text \<open>
  \<^bold>\<open>C4.\<close> Whenever the report is produced, the receivables cell of the totals row is
  the rounding of the sum of the receivables stored on the records of the rows, each of
  which is the rounded sum of the record's receivable amounts; likewise the liabilities
  cell for the amounts stored under \<^verbatim>\<open>total\<close>, and the cell of each visible column for the
  amounts stored under its key by the records that have one. Each sum is the one the
  loop computes: the stored amounts are added from the left to 0 (to \<^verbatim>\<open>sum || 0\<close> for the
  liabilities), the records taken in the order of the loop, of which the rows are the
  guest records followed by the others. The row is written to the sheet when there are
  rows.
\<close>

theorem totals_row_sums:
  assumes rep: "generateORLReport truthy rnd numStr data property startDate endDate = Inr rep"
  shows "reportRecords rep =
           filter (\<lambda>r. row_type r = ''Guest'') (recordsInLoopOrder rep)
           @ filter (\<lambda>r. row_type r \<noteq> ''Guest'') (recordsInLoopOrder rep)
       \<and> rep_totalRow rep ! 4 =
           Num (rnd (foldl (\<lambda>sum r. sum + receivables r) 0 (recordsInLoopOrder rep)))
       \<and> rep_totalRow rep ! 5 =
           Num (rnd (foldl (\<lambda>sum r. orZero truthy sum + numberAt (liabilities r) ''total'') 0
                       (recordsInLoopOrder rep)))
       \<and> (\<forall>i < length (rep_columns rep).
             rep_totalRow rep ! (6 + i) =
               Num (rnd (foldl (\<lambda>sum r. orZero truthy sum
                                   + numberAt (liabilities r) (col_key (rep_columns rep ! i))) 0
                           (filter (\<lambda>r. col_key (rep_columns rep ! i) \<in> fst ` set (liabilities r))
                              (recordsInLoopOrder rep)))))
       \<and> length (rep_totalRow rep) = 6 + length (rep_columns rep)
       \<and> (\<forall>r \<in> set (reportRecords rep).
             receivables r =
               rnd (foldl (\<lambda>sum t. sum + grossAmount t) 0 (receivableTransactions r))
             \<and> numberAt (liabilities r) ''total'' =
               rnd (foldl (\<lambda>sum t. sum + grossAmount t) 0 (liabilityTransactions r)))
       \<and> sheet_totals rep = (if reportRecords rep = [] then None else Some (rep_totalRow rep))"
proof -
  note st = report_state[OF rep]
  note lo = report_loop_records[OF rep]
  have tr: "total_receivables (totals (rep_state rep)) =
              foldl (\<lambda>sum r. sum + receivables r) 0 (recordsInLoopOrder rep)"
    unfolding lo(1) st(1) by (rule aggregate_total_receivables)
  have tl: "\<And>k. numberAt (total_liabilities (totals (rep_state rep))) k =
              foldl (\<lambda>sum r. orZero truthy sum + numberAt (liabilities r) k) 0
                (filter (\<lambda>r. k \<in> fst ` set (liabilities r)) (recordsInLoopOrder rep))"
    unfolding lo(1) st(1) by (rule aggregate_total_liabilities[OF st(5)])
  have tt: "numberAt (total_liabilities (totals (rep_state rep))) ''total'' =
              foldl (\<lambda>sum r. orZero truthy sum + numberAt (liabilities r) ''total'') 0
                (recordsInLoopOrder rep)"
    unfolding tl unfolding lo(1) kept_total_key[OF st(5)] ..
  have c0: "reportRecords rep =
           filter (\<lambda>r. row_type r = ''Guest'') (recordsInLoopOrder rep)
           @ filter (\<lambda>r. row_type r \<noteq> ''Guest'') (recordsInLoopOrder rep)"
    by (rule lo(2))
  have c1: "rep_totalRow rep ! 4 =
           Num (rnd (foldl (\<lambda>sum r. sum + receivables r) 0 (recordsInLoopOrder rep)))"
    unfolding st(4) totalRowFor_cells tr ..
  have c2: "rep_totalRow rep ! 5 =
           Num (rnd (foldl (\<lambda>sum r. orZero truthy sum + numberAt (liabilities r) ''total'') 0
                       (recordsInLoopOrder rep)))"
    unfolding st(4) totalRowFor_cells tt ..
  have c3: "\<forall>i < length (rep_columns rep).
             rep_totalRow rep ! (6 + i) =
               Num (rnd (foldl (\<lambda>sum r. orZero truthy sum
                                   + numberAt (liabilities r) (col_key (rep_columns rep ! i))) 0
                           (filter (\<lambda>r. col_key (rep_columns rep ! i) \<in> fst ` set (liabilities r))
                              (recordsInLoopOrder rep))))"
    unfolding st(4) by (simp add: totalRowFor_cells tl)
  have c4: "length (rep_totalRow rep) = 6 + length (rep_columns rep)"
    unfolding st(4) by (rule totalRowFor_cells)
  have c5: "\<forall>r \<in> set (reportRecords rep).
             receivables r =
               rnd (foldl (\<lambda>sum t. sum + grossAmount t) 0 (receivableTransactions r))
             \<and> numberAt (liabilities r) ''total'' =
               rnd (foldl (\<lambda>sum t. sum + grossAmount t) 0 (liabilityTransactions r))"
  proof
    fix r assume r: "r \<in> set (reportRecords rep)"
    note a = report_record_amounts(1,2)[OF rep r]
    show "receivables r =
               rnd (foldl (\<lambda>sum t. sum + grossAmount t) 0 (receivableTransactions r))
             \<and> numberAt (liabilities r) ''total'' =
               rnd (foldl (\<lambda>sum t. sum + grossAmount t) 0 (liabilityTransactions r))"
      using a by (simp add: numberAt_def)
  qed
  from report_fields[OF rep] have
    "sheet_totals rep = (if rep_rows rep \<noteq> [] then Some (rep_totalRow rep) else None)" by (elim exE conjE)
  then have c6: "sheet_totals rep = (if reportRecords rep = [] then None else Some (rep_totalRow rep))"
    unfolding st(3) by simp
  show ?thesis by (intro conjI) (rule c0, rule c1, rule c2, rule c3, rule c4, rule c5, rule c6)
qed

text \<open>
  With the example input reversed, the loop meets the external folios first: the totals
  are added in the order \<^verbatim>\<open>EXT1\<close>, \<^verbatim>\<open>R1\<close>, and the rows are those of \<^verbatim>\<open>R1\<close>, \<^verbatim>\<open>EXT1\<close>.
\<close>

theorem totals_row_sums_witness:
  "\<exists>rep. generateORLReport nonZero round2 percentString (rev closedData)
            ''BER'' ''2020-01-01'' ''2020-01-31'' = Inr rep
         \<and> map row_id (rep_groupedRecords rep) = [''EXT2'', ''EXT1'', ''R1'']
         \<and> map row_id (recordsInLoopOrder rep) = [''EXT1'', ''R1'']
         \<and> map row_id (reportRecords rep) = [''R1'', ''EXT1'']
         \<and> map receivables (recordsInLoopOrder rep) = [0, 100]
         \<and> rep_totalRow rep ! 4 =
             Num (round2 (foldl (\<lambda>sum r. sum + receivables r) 0 (recordsInLoopOrder rep)))
         \<and> rep_totalRow rep = [Str '''', Str '''', Str '''', Str ''Total'', Num 100, Num 70, Num 20, Num 50]
         \<and> length (rep_totalRow rep) = 6 + length (rep_columns rep)"
proof -
  have v: "map_sum id (\<lambda>rep. (map row_id (rep_groupedRecords rep), map row_id (recordsInLoopOrder rep),
                              map row_id (reportRecords rep),
                              map receivables (recordsInLoopOrder rep), rep_totalRow rep))
             (generateORLReport nonZero round2 percentString (rev closedData)
                ''BER'' ''2020-01-01'' ''2020-01-31'')
           = Inr ([''EXT2'', ''EXT1'', ''R1''], [''EXT1'', ''R1''], [''R1'', ''EXT1''], [0, 100],
                  [Str '''', Str '''', Str '''', Str ''Total'', Num 100, Num 70, Num 20, Num 50])"
    by code_simp
  then obtain rep where
    h: "generateORLReport nonZero round2 percentString (rev closedData)
          ''BER'' ''2020-01-01'' ''2020-01-31'' = Inr rep"
    by (cases "generateORLReport nonZero round2 percentString (rev closedData)
                 ''BER'' ''2020-01-01'' ''2020-01-31''")
      auto
  from v h have c: "map row_id (rep_groupedRecords rep) = [''EXT2'', ''EXT1'', ''R1'']"
    "map row_id (recordsInLoopOrder rep) = [''EXT1'', ''R1'']"
    "map row_id (reportRecords rep) = [''R1'', ''EXT1'']"
    "map receivables (recordsInLoopOrder rep) = [0, 100]"
    "rep_totalRow rep = [Str '''', Str '''', Str '''', Str ''Total'', Num 100, Num 70, Num 20, Num 50]"
    by simp_all
  note th = totals_row_sums[OF h]
  from th have a: "rep_totalRow rep ! 4 =
             Num (round2 (foldl (\<lambda>sum r. sum + receivables r) 0 (recordsInLoopOrder rep)))"
    by (elim conjE)
  from th have b: "length (rep_totalRow rep) = 6 + length (rep_columns rep)" by (elim conjE)
  show ?thesis
    by (intro exI[of _ rep] conjI)
      (rule h, rule c(1), rule c(2), rule c(3), rule c(4), rule a, rule c(5), rule b)
qed

text \<open>
  \<^bold>\<open>C6.\<close> For every record of the rows and every VAT key, the stored amount is the
  rounding of the sum of the amounts of the record's liability transactions with that
  key: the amounts are added without rounding, from the left and in the order of the
  record's transactions (each to \<^verbatim>\<open>info[key] || 0\<close>), and the sum is rounded once. The
  same holds for the amount under \<^verbatim>\<open>total\<close> and for the receivables.
\<close>

theorem liabilities_rounded_once:
  assumes rep: "generateORLReport truthy rnd numStr data property startDate endDate = Inr rep"
    and r: "r \<in> set (reportRecords rep)"
  shows "(\<forall>k. k \<noteq> ''total'' \<longrightarrow>
            map_of (liabilities r) k =
              (if k \<in> vatKeyOf numStr ` set (liabilityTransactions r)
               then Some (rnd (foldl (\<lambda>sum t. orZero truthy sum + grossAmount t) 0
                      (filter (\<lambda>t. vatKeyOf numStr t = k) (liabilityTransactions r))))
               else None))
       \<and> map_of (liabilities r) ''total'' =
           Some (rnd (foldl (\<lambda>sum t. sum + grossAmount t) 0 (liabilityTransactions r)))
       \<and> receivables r =
           rnd (foldl (\<lambda>sum t. sum + grossAmount t) 0 (receivableTransactions r))"
  using report_record_amounts[OF rep r] by simp

text \<open>
  With the rounding of the spec and the amounts as rationals: 0.333, 0.334 and 0.333
  under one key store 1.00, while the three amounts rounded one by one add up to 0.99.
\<close>

theorem liabilities_rounded_once_witness:
  "\<exists>rep r. generateORLReport nonZero round2 percentString thirdsData ''BER'' ''2020-01-01'' ''2020-01-31'' = Inr rep
         \<and> reportRecords rep = [r]
         \<and> map grossAmount (filter (\<lambda>t. vatKeyOf percentString t = ''A-10'') (liabilityTransactions r))
             = [333 / 1000, 334 / 1000, 333 / 1000]
         \<and> map_of (liabilities r) ''A-10'' = Some 1
         \<and> map_of (liabilities r) ''total'' = Some 1
         \<and> round2 (333 / 1000) + round2 (334 / 1000) + round2 (333 / 1000) = 99 / 100"
proof -
  have v: "map_sum id (\<lambda>rep. map (\<lambda>r. (row_id r,
                 map grossAmount (filter (\<lambda>t. vatKeyOf percentString t = ''A-10'') (liabilityTransactions r)),
                 map grossAmount (liabilityTransactions r)))
               (reportRecords rep))
             (generateORLReport nonZero round2 percentString thirdsData ''BER'' ''2020-01-01'' ''2020-01-31'')
           = Inr [(''R1'', [333 / 1000, 334 / 1000, 333 / 1000], [333 / 1000, 334 / 1000, 333 / 1000])]"
    by code_simp
  then obtain rep where
    h: "generateORLReport nonZero round2 percentString thirdsData ''BER'' ''2020-01-01'' ''2020-01-31'' = Inr rep"
    by (cases "generateORLReport nonZero round2 percentString thirdsData ''BER'' ''2020-01-01'' ''2020-01-31''")
      auto
  from v h obtain r where rs: "reportRecords rep = [r]"
    and f: "map grossAmount (filter (\<lambda>t. vatKeyOf percentString t = ''A-10'') (liabilityTransactions r))
             = [333 / 1000, 334 / 1000, 333 / 1000]"
    and g: "map grossAmount (liabilityTransactions r) = [333 / 1000, 334 / 1000, 333 / 1000]"
    by (cases "reportRecords rep") auto
  have r: "r \<in> set (reportRecords rep)" using rs by simp
  have key: "round2 (foldl (\<lambda>sum x. orZero nonZero sum + x) 0 [333 / 1000, 334 / 1000, 333 / 1000]) = 1"
    by code_simp
  have tot: "round2 (foldl (\<lambda>sum x. sum + x) 0 [333 / 1000, 334 / 1000, 333 / 1000 :: rat]) = 1"
    by code_simp
  have sep: "round2 (333 / 1000) + round2 (334 / 1000) + round2 (333 / 1000) = 99 / 100" by code_simp
  have mem: "''A-10'' \<in> vatKeyOf percentString ` set (liabilityTransactions r)"
  proof -
    from f have "filter (\<lambda>t. vatKeyOf percentString t = ''A-10'') (liabilityTransactions r) \<noteq> []" by auto
    then obtain t where "t \<in> set (liabilityTransactions r)" "vatKeyOf percentString t = ''A-10''"
      by (auto simp: filter_empty_conv)
    then show ?thesis by (metis imageI)
  qed
  have fk: "foldl (\<lambda>sum t. orZero nonZero sum + grossAmount t) 0
              (filter (\<lambda>t. vatKeyOf percentString t = ''A-10'') (liabilityTransactions r))
            = foldl (\<lambda>sum x. orZero nonZero sum + x) 0 [333 / 1000, 334 / 1000, 333 / 1000]"
    unfolding f[symmetric] foldl_map ..
  have ft: "foldl (\<lambda>sum t. sum + grossAmount t) 0 (liabilityTransactions r)
            = foldl (\<lambda>sum x. sum + x) 0 [333 / 1000, 334 / 1000, 333 / 1000]"
    unfolding g[symmetric] foldl_map ..
  note th = liabilities_rounded_once[OF h r]
  from th have "''A-10'' \<noteq> ''total'' \<longrightarrow>
            map_of (liabilities r) ''A-10'' =
              (if ''A-10'' \<in> vatKeyOf percentString ` set (liabilityTransactions r)
               then Some (round2 (foldl (\<lambda>sum t. orZero nonZero sum + grossAmount t) 0
                      (filter (\<lambda>t. vatKeyOf percentString t = ''A-10'') (liabilityTransactions r))))
               else None)" by (elim conjE allE)
  then have a: "map_of (liabilities r) ''A-10'' = Some 1"
    unfolding fk key using mem by simp
  from th have "map_of (liabilities r) ''total'' =
           Some (round2 (foldl (\<lambda>sum t. sum + grossAmount t) 0 (liabilityTransactions r)))"
    by (elim conjE)
  then have b: "map_of (liabilities r) ''total'' = Some 1" unfolding ft tot .
  show ?thesis by (intro exI[of _ rep] exI[of _ r] conjI) (rule h, rule rs, rule f, rule a, rule b, rule sep)
qed

lemma rowFor_cells:
  "rowFor truthy property columns r ! 1 = optionalCell (row_arrival r)"
  "rowFor truthy property columns r ! 2 = optionalCell (row_departure r)"
  "rowFor truthy property columns r ! 3 = optionalCell (row_status r)"
  "rowFor truthy property columns r ! 4 = Num (receivables r)"
  "rowFor truthy property columns r ! 5 = Num (numberAt (liabilities r) ''total'')"
  "i < length columns \<Longrightarrow>
     rowFor truthy property columns r ! (6 + i) = Num (numberOr0 truthy (liabilities r) (col_key (columns ! i)))"
  "length (rowFor truthy property columns r) = 6 + length columns"
  by (simp_all add: rowFor_def nth_append)

text \<open>
  \<^bold>\<open>C8\<close> (amended). Whenever the report is produced with a rounding that maps 0 to 0,
  the row of every external record has \<^verbatim>\<open>undefined\<close> (no value, not the empty string) in
  the arrival, departure and status positions, 0 in the receivables position when the
  record has no receivable transaction, and 0 in every visible VAT column under whose key
  the record has no stored amount.
\<close>

theorem external_row_cells:
  assumes rep: "generateORLReport truthy rnd numStr data property startDate endDate = Inr rep"
    and rnd0: "rnd 0 = 0"
  shows "\<forall>r \<in> set (reportRecords rep). row_type r = ''External'' \<longrightarrow>
           rowFor truthy property (rep_columns rep) r \<in> set (rep_rows rep)
         \<and> rowFor truthy property (rep_columns rep) r ! 1 = Undefined
         \<and> rowFor truthy property (rep_columns rep) r ! 2 = Undefined
         \<and> rowFor truthy property (rep_columns rep) r ! 3 = Undefined
         \<and> (receivableTransactions r = [] \<longrightarrow> rowFor truthy property (rep_columns rep) r ! 4 = Num 0)
         \<and> (\<forall>i < length (rep_columns rep).
               col_key (rep_columns rep ! i) \<notin> fst ` set (liabilities r) \<longrightarrow>
               rowFor truthy property (rep_columns rep) r ! (6 + i) = Num 0)
         \<and> length (rowFor truthy property (rep_columns rep) r) = 6 + length (rep_columns rep)"
proof (intro ballI impI)
  fix r assume r: "r \<in> set (reportRecords rep)" and ext: "row_type r = ''External''"
  note st = report_state[OF rep]
  from report_record[OF rep r] obtain r0 where r0: "r0 \<in> set (rep_groupedRecords rep)"
    "r = storedRecord truthy rnd numStr r0" by (elim bexE conjE)
  have ty: "row_type r0 \<noteq> ''Guest''" using ext unfolding r0(2) by (simp add: storedRecord_fields)
  from grouped_fresh[OF rep r0(1)] ty
  have none: "row_arrival r = None" "row_departure r = None" "row_status r = None"
    unfolding r0(2) by (simp_all add: storedRecord_fields)
  have c0: "rowFor truthy property (rep_columns rep) r \<in> set (rep_rows rep)"
    unfolding st(3) using r by simp
  have c1: "rowFor truthy property (rep_columns rep) r ! 1 = Undefined"
    unfolding rowFor_cells none by (simp add: optionalCell_def)
  have c2: "rowFor truthy property (rep_columns rep) r ! 2 = Undefined"
    unfolding rowFor_cells none by (simp add: optionalCell_def)
  have c3: "rowFor truthy property (rep_columns rep) r ! 3 = Undefined"
    unfolding rowFor_cells none by (simp add: optionalCell_def)
  have c4: "receivableTransactions r = [] \<longrightarrow> rowFor truthy property (rep_columns rep) r ! 4 = Num 0"
    using report_record_amounts(1)[OF rep r] rnd0 by (simp add: rowFor_cells)
  have c5: "\<forall>i < length (rep_columns rep).
               col_key (rep_columns rep ! i) \<notin> fst ` set (liabilities r) \<longrightarrow>
               rowFor truthy property (rep_columns rep) r ! (6 + i) = Num 0"
    by (simp add: rowFor_cells numberOr0_absent)
  show "rowFor truthy property (rep_columns rep) r \<in> set (rep_rows rep)
         \<and> rowFor truthy property (rep_columns rep) r ! 1 = Undefined
         \<and> rowFor truthy property (rep_columns rep) r ! 2 = Undefined
         \<and> rowFor truthy property (rep_columns rep) r ! 3 = Undefined
         \<and> (receivableTransactions r = [] \<longrightarrow> rowFor truthy property (rep_columns rep) r ! 4 = Num 0)
         \<and> (\<forall>i < length (rep_columns rep).
               col_key (rep_columns rep ! i) \<notin> fst ` set (liabilities r) \<longrightarrow>
               rowFor truthy property (rep_columns rep) r ! (6 + i) = Num 0)
         \<and> length (rowFor truthy property (rep_columns rep) r) = 6 + length (rep_columns rep)"
    by (intro conjI) (rule c0, rule c1, rule c2, rule c3, rule c4, rule c5, rule rowFor_cells)
qed

theorem external_row_cells_witness:
  "\<exists>rep. generateORLReport nonZero round2 percentString exampleData ''BER'' ''2020-01-01'' ''2020-01-31'' = Inr rep
      \<and> round2 0 = 0
      \<and> map (\<lambda>r. (row_id r, row_type r, receivableTransactions r = [],
                   map (\<lambda>c. col_key c \<in> fst ` set (liabilities r)) (rep_columns rep)))
            (reportRecords rep)
          = [(''R1'', ''Guest'', False, [False, True]), (''EXT1'', ''External'', True, [True, False])]
      \<and> map (drop 1) (rep_rows rep)
          = [[Str ''2020-01-01'', Str ''2020-01-03'', Str ''InHouse'', Num 100, Num 50, Num 0, Num 50],
             [Undefined, Undefined, Undefined, Num 0, Num 20, Num 20, Num 0]]
      \<and> list_all (\<lambda>r. row_type r = ''External'' \<longrightarrow>
                    rowFor nonZero ''BER'' (rep_columns rep) r ! 1 = Undefined
                    \<and> rowFor nonZero ''BER'' (rep_columns rep) r ! 4 = Num 0) (reportRecords rep)"
proof -
  have v: "map_sum id (\<lambda>rep. (map (\<lambda>r. (row_id r, row_type r, receivableTransactions r = [],
                   map (\<lambda>c. col_key c \<in> fst ` set (liabilities r)) (rep_columns rep)))
                 (reportRecords rep), map (drop 1) (rep_rows rep)))
             (generateORLReport nonZero round2 percentString exampleData ''BER'' ''2020-01-01'' ''2020-01-31'')
           = Inr ([(''R1'', ''Guest'', False, [False, True]), (''EXT1'', ''External'', True, [True, False])],
                  [[Str ''2020-01-01'', Str ''2020-01-03'', Str ''InHouse'', Num 100, Num 50, Num 0, Num 50],
                   [Undefined, Undefined, Undefined, Num 0, Num 20, Num 20, Num 0]])"
    by code_simp
  then obtain rep where
    h: "generateORLReport nonZero round2 percentString exampleData ''BER'' ''2020-01-01'' ''2020-01-31'' = Inr rep"
    by (cases "generateORLReport nonZero round2 percentString exampleData ''BER'' ''2020-01-01'' ''2020-01-31''")
      auto
  have z: "round2 0 = 0" by code_simp
  from v h have c: "map (\<lambda>r. (row_id r, row_type r, receivableTransactions r = [],
                   map (\<lambda>c. col_key c \<in> fst ` set (liabilities r)) (rep_columns rep)))
            (reportRecords rep)
          = [(''R1'', ''Guest'', False, [False, True]), (''EXT1'', ''External'', True, [True, False])]"
    "map (drop 1) (rep_rows rep)
          = [[Str ''2020-01-01'', Str ''2020-01-03'', Str ''InHouse'', Num 100, Num 50, Num 0, Num 50],
             [Undefined, Undefined, Undefined, Num 0, Num 20, Num 20, Num 0]]" by simp_all
  note th = external_row_cells[OF h z]
  have l: "list_all (\<lambda>r. row_type r = ''External'' \<longrightarrow>
                    rowFor nonZero ''BER'' (rep_columns rep) r ! 1 = Undefined
                    \<and> rowFor nonZero ''BER'' (rep_columns rep) r ! 4 = Num 0) (reportRecords rep)"
    unfolding list_all_iff
  proof (intro ballI impI)
    fix r assume r: "r \<in> set (reportRecords rep)" and e: "row_type r = ''External''"
    from c(1) r e have nr: "receivableTransactions r = []" by (cases "reportRecords rep") auto
    from th r e nr show "rowFor nonZero ''BER'' (rep_columns rep) r ! 1 = Undefined
                    \<and> rowFor nonZero ''BER'' (rep_columns rep) r ! 4 = Num 0" by simp
  qed
  show ?thesis by (intro exI[of _ rep] conjI) (rule h, rule z, rule c(1), rule c(2), rule l)
qed

text \<open>
  The arrival cell of an external record's row is \<^verbatim>\<open>undefined\<close>, and so not the empty
  string.
\<close>

theorem external_blank_cells_counterexample:
  "map_sum id (\<lambda>rep. map (\<lambda>r. (row_type r, rowFor nonZero ''BER'' (rep_columns rep) r ! 1 = Str '''',
                                rowFor nonZero ''BER'' (rep_columns rep) r ! 1 = Undefined))
                        (reportRecords rep))
     (generateORLReport nonZero round2 percentString
        [externalTransaction ''EXT1'' 20 ''Payments'' ''Liabilities'' None]
        ''BER'' ''2020-01-01'' ''2020-01-31'')
   = Inr [(''External'', False, True)]"
  by code_simp

subsection \<open>The order of discovery\<close>

lemma sortWeight_vatInfoFor:
  "sortWeight (vatInfoFor k tx) = (case tx of None \<Rightarrow> 0 | Some x \<Rightarrow> percent x)"
  by (simp add: sortWeight_def vatInfoFor_def split: option.splits)

text \<open>
  The registry after a pass over a list of liability transactions: the entries it had,
  followed by the entries of the transactions that are the first with a key it did not
  have, in the order of the list.
\<close>

lemma liabilityFold_snd:
  "snd (foldl (liabilityStep truthy numStr) (info, vti) ts) =
     vti @ map (registryEntry numStr)
             (firstOfKey (vatKeyOf numStr) (filter (\<lambda>t. vatKeyOf numStr t \<notin> fst ` set vti) ts))"
proof (induction ts arbitrary: info vti)
  case Nil
  show ?case by simp
next
  case (Cons t ts)
  obtain i1 v1 where s1: "liabilityStep truthy numStr (info, vti) t = (i1, v1)"
    by (cases "liabilityStep truthy numStr (info, vti) t")
  have v1: "v1 = (if vatKeyOf numStr t \<in> fst ` set vti then vti else vti @ [registryEntry numStr t])"
    using liabilityStep_snd[of truthy numStr info vti t] s1 by (simp add: registryEntry_def)
  show ?case
  proof (cases "vatKeyOf numStr t \<in> fst ` set vti")
    case True
    with v1 have "v1 = vti" by simp
    with Cons.IH[of i1 v1] s1 True show ?thesis by simp
  next
    case False
    with v1 have e: "v1 = vti @ [registryEntry numStr t]" by simp
    have k: "fst ` set v1 = insert (vatKeyOf numStr t) (fst ` set vti)"
      unfolding e by (simp add: registryEntry_def)
    have f: "filter (\<lambda>u. vatKeyOf numStr u \<notin> fst ` set v1) ts =
             filter (\<lambda>u. vatKeyOf numStr u \<noteq> vatKeyOf numStr t)
               (filter (\<lambda>u. vatKeyOf numStr u \<notin> fst ` set vti) ts)"
      unfolding k by (simp add: conj_commute)
    have "snd (foldl (liabilityStep truthy numStr) (info, vti) (t # ts)) =
          snd (foldl (liabilityStep truthy numStr) (i1, v1) ts)" using s1 by simp
    also have "\<dots> = v1 @ map (registryEntry numStr)
             (firstOfKey (vatKeyOf numStr) (filter (\<lambda>u. vatKeyOf numStr u \<notin> fst ` set v1) ts))"
      by (rule Cons.IH)
    finally have "snd (foldl (liabilityStep truthy numStr) (info, vti) (t # ts)) =
        (vti @ [registryEntry numStr t]) @ map (registryEntry numStr)
          (firstOfKey (vatKeyOf numStr)
             (filter (\<lambda>u. vatKeyOf numStr u \<noteq> vatKeyOf numStr t)
                (filter (\<lambda>u. vatKeyOf numStr u \<notin> fst ` set vti) ts)))"
      unfolding f unfolding e .
    then show ?thesis using False by (simp del: filter_filter)
  qed
qed

lemma liabilityFold_snd_indep:
  "snd (foldl (liabilityStep truthy numStr) (info, vti) ts) =
     snd (foldl (liabilityStep truthy numStr) (info', vti) ts)"
  unfolding liabilityFold_snd ..

lemma aggregateFold_registry_fold:
  "vatTypesInfo (foldl (processRecord truthy rnd numStr) st rs) =
     snd (foldl (liabilityStep truthy numStr) (info, vatTypesInfo st) (loopLiabilities rs))"
proof (induction rs arbitrary: st info)
  case Nil
  show ?case by (simp add: loopLiabilities_def)
next
  case (Cons r rs)
  obtain i1 v1 where s1:
    "foldl (liabilityStep truthy numStr) (info, vatTypesInfo st) (liabilityTransactions r) = (i1, v1)"
    by (cases "foldl (liabilityStep truthy numStr) (info, vatTypesInfo st) (liabilityTransactions r)")
  have "vatTypesInfo (processRecord truthy rnd numStr st r) =
        snd (foldl (liabilityStep truthy numStr) ([(''total'', 0)], vatTypesInfo st)
               (liabilityTransactions r))"
    unfolding processRecord_vatTypesInfo recordLiabilities_def ..
  also have "\<dots> = snd (foldl (liabilityStep truthy numStr) (info, vatTypesInfo st)
                        (liabilityTransactions r))"
    by (rule liabilityFold_snd_indep)
  finally have v: "vatTypesInfo (processRecord truthy rnd numStr st r) = v1" using s1 by simp
  have "vatTypesInfo (foldl (processRecord truthy rnd numStr) st (r # rs)) =
        vatTypesInfo (foldl (processRecord truthy rnd numStr) (processRecord truthy rnd numStr st r) rs)"
    by simp
  also have "\<dots> = snd (foldl (liabilityStep truthy numStr) (i1, v1) (loopLiabilities rs))"
    unfolding Cons.IH[of "processRecord truthy rnd numStr st r" i1] v ..
  also have "\<dots> = snd (foldl (liabilityStep truthy numStr) (info, vatTypesInfo st)
                        (loopLiabilities (r # rs)))"
    by (simp add: loopLiabilities_def s1)
  finally show ?case .
qed

lemma aggregate_registry_discovery:
  "vatTypesInfo (aggregate truthy rnd numStr rs) =
     map (registryEntry numStr) (firstOfKey (vatKeyOf numStr) (loopLiabilities rs))"
  unfolding aggregate_def aggregateFold_registry_fold[of truthy rnd numStr initialState rs "[]"]
    liabilityFold_snd
  by (simp add: initialState_def)

lemma insort_key_map:
  "insort_key f (g x) (map g ys) = map g (insort_key (\<lambda>y. f (g y)) x ys)"
  by (induction ys) simp_all

lemma sort_key_map: "sort_key f (map g xs) = map g (sort_key (\<lambda>x. f (g x)) xs)"
  by (induction xs) (simp_all add: insort_key_map)

lemma registryEntry_fields:
  "vat_key (snd (registryEntry numStr t)) = vatKeyOf numStr t"
  "sortWeight (snd (registryEntry numStr t)) = (case firstTax t of None \<Rightarrow> 0 | Some x \<Rightarrow> percent x)"
  by (simp_all add: registryEntry_def vat_key_vatInfoFor sortWeight_vatInfoFor)

text \<open>
  \<^bold>\<open>C5\<close> (amended). Whenever the report is produced, the registry holds one entry for
  each VAT key, made by the first liability transaction with that key that the main loop
  meets, and the entries are in the order of these transactions: the order of discovery.
  The visible columns are those of the used entries in ascending order of their weight,
  and the entries of equal weight keep the order of their discovery. The weight of an
  entry is the percentage of the first tax entry of the transaction that made it, also
  when the type of that tax entry is \<^verbatim>\<open>Without\<close>, and 0 when that transaction has no tax
  entry.
\<close>

theorem vat_columns_sorted:
  assumes rep: "generateORLReport truthy rnd numStr data property startDate endDate = Inr rep"
  shows "vatTypesInfo (rep_state rep) =
           map (registryEntry numStr)
             (firstOfKey (vatKeyOf numStr) (loopLiabilities (rep_groupedRecords rep)))
       \<and> (\<exists>ts. rep_columns rep = map (\<lambda>t. columnFor numStr (snd (registryEntry numStr t))) ts
             \<and> sorted (map (\<lambda>t. sortWeight (snd (registryEntry numStr t))) ts)
             \<and> (\<forall>w. filter (\<lambda>t. sortWeight (snd (registryEntry numStr t)) = w) ts =
                     filter (\<lambda>t. sortWeight (snd (registryEntry numStr t)) = w)
                       (filter (\<lambda>t. vatKeyOf numStr t \<in> set (usedVatTypes (rep_state rep)))
                          (firstOfKey (vatKeyOf numStr)
                             (loopLiabilities (rep_groupedRecords rep))))))
       \<and> (\<forall>t. sortWeight (snd (registryEntry numStr t)) =
                (case firstTax t of None \<Rightarrow> 0 | Some x \<Rightarrow> percent x)
              \<and> vat_key (snd (registryEntry numStr t)) = vatKeyOf numStr t
              \<and> fst (registryEntry numStr t) = vatKeyOf numStr t)"
proof -
  note st = report_state[OF rep]
  let ?D = "firstOfKey (vatKeyOf numStr) (loopLiabilities (rep_groupedRecords rep))"
  let ?w = "\<lambda>t. sortWeight (snd (registryEntry numStr t))"
  let ?used = "filter (\<lambda>t. vatKeyOf numStr t \<in> set (usedVatTypes (rep_state rep))) ?D"
  let ?ts = "sort_key ?w ?used"
  have c0: "vatTypesInfo (rep_state rep) = map (registryEntry numStr) ?D"
    unfolding st(1) by (rule aggregate_registry_discovery)
  have u: "filter (\<lambda>ty. vat_key ty \<in> set (usedVatTypes (rep_state rep)))
             (map snd (vatTypesInfo (rep_state rep)))
           = map (\<lambda>t. snd (registryEntry numStr t)) ?used"
    unfolding c0 by (simp add: filter_map comp_def registryEntry_fields)
  have c1: "rep_columns rep = map (\<lambda>t. columnFor numStr (snd (registryEntry numStr t))) ?ts"
    unfolding st(2) liabilitiesColumns_def u sort_key_map by (simp add: comp_def)
  have c2: "sorted (map ?w ?ts)" by (rule sorted_sort_key)
  have c3: "\<forall>w. filter (\<lambda>t. ?w t = w) ?ts = filter (\<lambda>t. ?w t = w) ?used"
    by (intro allI) (rule sort_key_stable)
  have c4: "\<forall>t. sortWeight (snd (registryEntry numStr t)) =
                (case firstTax t of None \<Rightarrow> 0 | Some x \<Rightarrow> percent x)
              \<and> vat_key (snd (registryEntry numStr t)) = vatKeyOf numStr t
              \<and> fst (registryEntry numStr t) = vatKeyOf numStr t"
    by (simp add: registryEntry_fields) (simp add: registryEntry_def)
  have ex: "\<exists>ts. rep_columns rep = map (\<lambda>t. columnFor numStr (snd (registryEntry numStr t))) ts
             \<and> sorted (map ?w ts)
             \<and> (\<forall>w. filter (\<lambda>t. ?w t = w) ts = filter (\<lambda>t. ?w t = w) ?used)"
    by (intro exI[of _ ?ts] conjI) (rule c1, rule c2, rule c3)
  show ?thesis by (intro conjI) (rule c0, rule ex, rule c4)
qed

text \<open>
  Four keys are discovered in the order \<^verbatim>\<open>C-19\<close>, \<^verbatim>\<open>B-7\<close>, \<^verbatim>\<open>A-7\<close>, \<^verbatim>\<open>Without\<close>; the
  columns are in ascending order of the percentage, \<^verbatim>\<open>B-7\<close> before \<^verbatim>\<open>A-7\<close>.
\<close>

theorem vat_columns_sorted_witness:
  "\<exists>rep. generateORLReport nonZero round2 percentString mixedTaxData ''BER'' ''2020-01-01'' ''2020-01-31''
                = Inr rep
      \<and> map (vatKeyOf percentString)
          (firstOfKey (vatKeyOf percentString) (loopLiabilities (rep_groupedRecords rep)))
          = [''C-19'', ''B-7'', ''A-7'', ''Without'']
      \<and> map fst (vatTypesInfo (rep_state rep)) = [''C-19'', ''B-7'', ''A-7'', ''Without'']
      \<and> map col_key (rep_columns rep) = [''Without'', ''B-7'', ''A-7'', ''C-19'']
      \<and> map displayName (rep_columns rep)
          = [''Liab. Without'', ''Liab. B 7%'', ''Liab. A 7%'', ''Liab. C 19%'']
      \<and> vatTypesInfo (rep_state rep) =
           map (registryEntry percentString)
             (firstOfKey (vatKeyOf percentString) (loopLiabilities (rep_groupedRecords rep)))"
proof -
  have v: "map_sum id (\<lambda>rep. (map (vatKeyOf percentString)
                                (firstOfKey (vatKeyOf percentString)
                                   (loopLiabilities (rep_groupedRecords rep))),
                              map fst (vatTypesInfo (rep_state rep)), map col_key (rep_columns rep),
                              map displayName (rep_columns rep)))
             (generateORLReport nonZero round2 percentString mixedTaxData ''BER'' ''2020-01-01'' ''2020-01-31'')
           = Inr ([''C-19'', ''B-7'', ''A-7'', ''Without''], [''C-19'', ''B-7'', ''A-7'', ''Without''],
                  [''Without'', ''B-7'', ''A-7'', ''C-19''],
                  [''Liab. Without'', ''Liab. B 7%'', ''Liab. A 7%'', ''Liab. C 19%''])"
    by code_simp
  then obtain rep where
    h: "generateORLReport nonZero round2 percentString mixedTaxData ''BER'' ''2020-01-01'' ''2020-01-31'' = Inr rep"
    by (cases "generateORLReport nonZero round2 percentString mixedTaxData ''BER'' ''2020-01-01'' ''2020-01-31''")
      auto
  from v h have c:
    "map (vatKeyOf percentString)
          (firstOfKey (vatKeyOf percentString) (loopLiabilities (rep_groupedRecords rep)))
          = [''C-19'', ''B-7'', ''A-7'', ''Without'']"
    "map fst (vatTypesInfo (rep_state rep)) = [''C-19'', ''B-7'', ''A-7'', ''Without'']"
    "map col_key (rep_columns rep) = [''Without'', ''B-7'', ''A-7'', ''C-19'']"
    "map displayName (rep_columns rep)
          = [''Liab. Without'', ''Liab. B 7%'', ''Liab. A 7%'', ''Liab. C 19%'']" by simp_all
  from vat_columns_sorted[OF h] have
    a: "vatTypesInfo (rep_state rep) =
           map (registryEntry percentString)
             (firstOfKey (vatKeyOf percentString) (loopLiabilities (rep_groupedRecords rep)))"
    by (elim conjE)
  show ?thesis
    by (intro exI[of _ rep] conjI) (rule h, rule c(1), rule c(2), rule c(3), rule c(4), rule a)
qed

text \<open>
  The untaxed category does not always have weight 0: registered from a tax entry of type
  \<^verbatim>\<open>Without\<close> with 5 percent, it sorts after the category of 3 percent.
\<close>

theorem untaxed_weight_counterexample:
  "map_sum id (\<lambda>rep. (map (\<lambda>p. (fst p, sortWeight (snd p))) (vatTypesInfo (rep_state rep)),
                      map col_key (rep_columns rep)))
     (generateORLReport nonZero round2 percentString untaxedPercentData ''BER'' ''2020-01-01'' ''2020-01-31'')
   = Inr ([(''Without'', 5), (''A-3'', 3)], [''A-3'', ''Without''])"
  by code_simp

end
